theory Spec2Isabelle
  imports Complex_Main
begin

section \<open>The tensor library used by \<open>torch/nn/modules/linear.py\<close>\<close>

text \<open>
  Modelled from the spec: the tensor type of the host library, which is not part of
  \<open>linear.py\<close>. The spec takes it as an n-dimensional numeric array with a known shape,
  element-wise arithmetic, broadcasting and contraction. Here a tensor is a shape (the
  ordered dimension sizes) together with its elements in row-major order. Elements are
  taken from an arbitrary commutative semiring, so the arithmetic below is exact; rounding
  of machine floats is not modelled.
\<close>

text \<open>
  The exceptions: \<open>ShapeMismatch\<close> is the library's error for sizes that do not fit
  (the name is the spec's), \<open>NegativeDimension\<close> its error for an allocation with a
  negative size; \<open>ZeroDivisionError\<close> and \<open>IndexError\<close> are Python's.
\<close>

datatype error = ShapeMismatch | NegativeDimension | ZeroDivisionError | IndexError

datatype 'a tensor = Tensor (shape: "nat list") (data: "'a list")

definition wf_tensor :: "'a tensor \<Rightarrow> bool" where
  "wf_tensor x \<longleftrightarrow> length (data x) = prod_list (shape x)"

text \<open>\<open>x.dim()\<close>: the rank.\<close>

definition dim :: "'a tensor \<Rightarrow> nat" where
  "dim x = length (shape x)"

text \<open>All index tuples of a shape, in row-major order, and the position of one of them.\<close>

fun indices :: "nat list \<Rightarrow> nat list list" where
  "indices [] = [[]]"
| "indices (d # ds) = concat (map (\<lambda>i. map ((#) i) (indices ds)) [0..<d])"

fun offset :: "nat list \<Rightarrow> nat list \<Rightarrow> nat" where
  "offset (d # ds) (i # js) = i * prod_list ds + offset ds js"
| "offset _ _ = 0"

definition valid_index :: "nat list \<Rightarrow> nat list \<Rightarrow> bool" where
  "valid_index s idx \<longleftrightarrow> list_all2 (<) idx s"

text \<open>
  Reading one element, \<open>x[i1, ..., in]\<close>. The library raises for an index outside the
  shape; every use below is at an index inside the shape.
\<close>

definition get :: "'a tensor \<Rightarrow> nat list \<Rightarrow> 'a" where
  "get x idx = data x ! offset (shape x) idx"

text \<open>The tensor of shape \<open>s\<close> whose element at \<open>idx\<close> is \<open>f idx\<close>.\<close>

definition tabulate :: "nat list \<Rightarrow> (nat list \<Rightarrow> 'a) \<Rightarrow> 'a tensor" where
  "tabulate s f = Tensor s (map f (indices s))"

subsection \<open>Broadcasting\<close>

text \<open>
  Modelled from the spec: the element-wise operations of the tensor type, which are not
  part of \<open>linear.py\<close>. The spec asks for "standard broadcasting": the shapes are aligned
  at their last dimension, the shorter one is padded with 1 in front, and two sizes are
  compatible when they are equal or one of them is 1.
\<close>

definition pad_shape :: "nat \<Rightarrow> nat list \<Rightarrow> nat list" where
  "pad_shape n s = replicate (n - length s) 1 @ s"

definition compat :: "nat \<Rightarrow> nat \<Rightarrow> bool" where
  "compat a b \<longleftrightarrow> a = b \<or> a = 1 \<or> b = 1"

definition bdim :: "nat \<Rightarrow> nat \<Rightarrow> nat" where
  "bdim a b = (if a = 1 then b else a)"

definition broadcast_shapes :: "nat list \<Rightarrow> nat list \<Rightarrow> nat list option" where
  "broadcast_shapes a b =
     (let n = max (length a) (length b); a' = pad_shape n a; b' = pad_shape n b
      in if list_all2 compat a' b' then Some (map2 bdim a' b') else None)"

text \<open>The index of an operand of shape \<open>s\<close> that the result index \<open>idx\<close> reads.\<close>

definition bidx :: "nat list \<Rightarrow> nat list \<Rightarrow> nat list" where
  "bidx s idx = map2 (\<lambda>d i. if d = 1 then 0 else i) s (drop (length idx - length s) idx)"

definition binop :: "('a \<Rightarrow> 'a \<Rightarrow> 'a) \<Rightarrow> 'a tensor \<Rightarrow> 'a tensor \<Rightarrow> error + 'a tensor" where
  "binop f a b =
     (case broadcast_shapes (shape a) (shape b) of
        None \<Rightarrow> Inl ShapeMismatch
      | Some s \<Rightarrow> Inr (tabulate s (\<lambda>idx. f (get a (bidx (shape a) idx)) (get b (bidx (shape b) idx)))))"

text \<open>\<open>a * b\<close> and \<open>a + b\<close> on tensors.\<close>

definition mul :: "'a::comm_semiring_1 tensor \<Rightarrow> 'a tensor \<Rightarrow> error + 'a tensor" where
  "mul = binop (*)"

definition add :: "'a::comm_semiring_1 tensor \<Rightarrow> 'a tensor \<Rightarrow> error + 'a tensor" where
  "add = binop (+)"

text \<open>
  Modelled from the spec: \<open>x.unsqueeze(-1)\<close> of the tensor type appends one singleton
  dimension; the elements are unchanged.
\<close>

definition unsqueeze_last :: "'a tensor \<Rightarrow> 'a tensor" where
  "unsqueeze_last x = Tensor (shape x @ [1]) (data x)"

section \<open>FiLM\<close>

text \<open>
  \<^verbatim>\<open>
  def forward(self, input, gammas, betas):
      for _ in range(input.dim() - 2):
          gammas = gammas.unsqueeze(-1)
          betas = betas.unsqueeze(-1)
      return gammas * input + betas
  \<close>
  \<open>range\<close> of a number below 1 is empty, so the loop count is \<open>input.dim() - 2\<close> cut
  off at 0.
\<close>

fun FiLM_loop :: "nat \<Rightarrow> 'a tensor \<Rightarrow> 'a tensor \<Rightarrow> 'a tensor \<times> 'a tensor" where
  "FiLM_loop 0 gammas betas = (gammas, betas)"
| "FiLM_loop (Suc n) gammas betas = FiLM_loop n (unsqueeze_last gammas) (unsqueeze_last betas)"

definition FiLM_forward ::
  "'a::comm_semiring_1 tensor \<Rightarrow> 'a tensor \<Rightarrow> 'a tensor \<Rightarrow> error + 'a tensor" where
  "FiLM_forward input gammas betas =
     (case FiLM_loop (nat (int (dim input) - 2)) gammas betas of
        (gammas', betas') \<Rightarrow>
          (case mul gammas' input of
             Inl e \<Rightarrow> Inl e
           | Inr scaled \<Rightarrow> add scaled betas'))"

section \<open>The functional interface: \<open>F.linear\<close> and \<open>F.bilinear\<close>\<close>

text \<open>
  Modelled from the spec: \<open>w.t()\<close> of the tensor type, the transpose in
  \<open>y = x \<cdot> W\<^sup>T + b\<close>. It is defined up to rank 2; a higher rank is an error.
\<close>

definition tensor_t :: "'a tensor \<Rightarrow> error + 'a tensor" where
  "tensor_t w =
     (if dim w \<le> 2 then Inr (tabulate (rev (shape w)) (\<lambda>idx. get w (rev idx)))
      else Inl ShapeMismatch)"

text \<open>
  Modelled from the spec: the contraction of the tensor type ("matrix multiply"), in the
  one case \<open>F.linear\<close> uses: a tensor of rank at least 1 times a matrix. The last
  dimension of the first operand is summed against the first dimension of the matrix; any
  other combination of ranks is outside this model and reported as \<open>ShapeMismatch\<close>.
\<close>

definition matmul :: "'a::comm_semiring_1 tensor \<Rightarrow> 'a tensor \<Rightarrow> error + 'a tensor" where
  "matmul a b =
     (if dim a = 0 \<or> dim b \<noteq> 2 then Inl ShapeMismatch
      else if last (shape a) \<noteq> shape b ! 0 then Inl ShapeMismatch
      else Inr (tabulate (butlast (shape a) @ [shape b ! 1])
             (\<lambda>idx. \<Sum>i\<leftarrow>[0..<last (shape a)]. get a (butlast idx @ [i]) * get b [i, last idx])))"

text \<open>
  Modelled from the spec: \<open>F.linear(input, weight, bias)\<close> of \<open>torch/nn/functional.py\<close>,
  which is not part of \<open>linear.py\<close>. The spec: \<open>y = x \<cdot> W\<^sup>T + b\<close> generalised over
  the leading dimensions, the bias term present only if configured, and a shape error when
  the trailing dimension of the input is not the second dimension of the weight.
\<close>

definition linear ::
  "'a::comm_semiring_1 tensor \<Rightarrow> 'a tensor \<Rightarrow> 'a tensor option \<Rightarrow> error + 'a tensor" where
  "linear input weight bias =
     (case tensor_t weight of
        Inl e \<Rightarrow> Inl e
      | Inr wt \<Rightarrow>
          (case matmul input wt of
             Inl e \<Rightarrow> Inl e
           | Inr output \<Rightarrow>
               (case bias of None \<Rightarrow> Inr output | Some b \<Rightarrow> add output b)))"

text \<open>
  Modelled from the spec: \<open>F.bilinear(input1, input2, weight, bias)\<close> of
  \<open>torch/nn/functional.py\<close>, which is not part of \<open>linear.py\<close>. The spec describes two
  chained contractions: \<open>input2\<close> against the last axis of \<open>weight\<close>, giving an
  intermediate tensor of shape \<open>(..., out_features, in1_features)\<close>, and then that tensor
  against the last axis of \<open>input1\<close>. It fails when a trailing dimension does not fit the
  weight or when the leading dimensions of the two inputs differ.
\<close>

definition bilinear ::
  "'a::comm_semiring_1 tensor \<Rightarrow> 'a tensor \<Rightarrow> 'a tensor \<Rightarrow> 'a tensor option \<Rightarrow> error + 'a tensor" where
  "bilinear input1 input2 weight bias =
     (if dim input1 = 0 \<or> dim input2 = 0 \<or> dim weight \<noteq> 3 then Inl ShapeMismatch
      else if last (shape input1) \<noteq> shape weight ! 1 then Inl ShapeMismatch
      else if last (shape input2) \<noteq> shape weight ! 2 then Inl ShapeMismatch
      else if butlast (shape input1) \<noteq> butlast (shape input2) then Inl ShapeMismatch
      else
        let lead = butlast (shape input1);
            n = length lead;
            inter = tabulate (lead @ [shape weight ! 0, shape weight ! 1])
              (\<lambda>idx. \<Sum>k\<leftarrow>[0..<shape weight ! 2].
                 get weight [idx ! n, idx ! Suc n, k] * get input2 (take n idx @ [k]));
            output = tabulate (lead @ [shape weight ! 0])
              (\<lambda>idx. \<Sum>i\<leftarrow>[0..<shape weight ! 1]. get input1 (butlast idx @ [i]) * get inter (idx @ [i]))
        in (case bias of None \<Rightarrow> Inr output | Some b \<Rightarrow> add output b))"

text \<open>
  Modelled from the spec: \<open>x[b]\<close> of the tensor type for an index \<open>b \<ge> 0\<close>, the slice
  of \<open>x\<close> at \<open>b\<close> along the first dimension. An index outside the first dimension is an
  error.
\<close>

definition select :: "'a tensor \<Rightarrow> nat \<Rightarrow> error + 'a tensor" where
  "select x b =
     (case shape x of
        [] \<Rightarrow> Inl IndexError
      | d # ds \<Rightarrow> if b < d then Inr (tabulate ds (\<lambda>idx. get x (b # idx))) else Inl IndexError)"

section \<open>Parameters and their initialisation\<close>

text \<open>
  Modelled from the spec: the allocation \<open>torch.Tensor(d1, ..., dn)\<close> and \<open>x.size(d)\<close>
  of the tensor type, which are not part of \<open>linear.py\<close>. The spec gives the shapes of
  the allocated parameters for positive sizes: the tensor has exactly the sizes asked for.
  The allocation does not initialise the tensor (the content is modelled as 0;
  \<open>reset_parameters\<close> overwrites it). For a size of 0 or below neither the spec nor
  \<open>linear.py\<close> says what the library does; \<open>Tensor_new\<close> then keeps a size of 0 as a
  dimension and refuses a negative size, which is one possible library. What is proved of
  construction with such sizes does not rest on it: there the allocator is a parameter of
  the constructor. \<open>x.size(d)\<close> reads one dimension and raises when there is none.
\<close>

definition Tensor_new :: "int list \<Rightarrow> error + real tensor" where
  "Tensor_new sizes =
     (if \<exists>d \<in> set sizes. d < 0 then Inl NegativeDimension
      else Inr (Tensor (map nat sizes) (replicate (prod_list (map nat sizes)) 0)))"

definition size_dim :: "'a tensor \<Rightarrow> nat \<Rightarrow> error + nat" where
  "size_dim x d = (if d < dim x then Inr (shape x ! d) else Inl IndexError)"

text \<open>
  A second allocator, for the examples of construction with a size of 0 or below: a library
  that ends the shape at the first size that is not positive. The tensor has the
  dimensions before that size, and no element when no dimension is left. At positive sizes
  it is \<open>Tensor_new\<close>.
\<close>

definition Tensor_truncating :: "int list \<Rightarrow> error + real tensor" where
  "Tensor_truncating sizes =
     (let s = map nat (takeWhile (\<lambda>d. 0 < d) sizes)
      in Inr (Tensor s (if s = [] then [] else replicate (prod_list s) 0)))"

text \<open>
  Modelled from the spec: \<open>x.uniform_(lo, hi)\<close> of the tensor type, which is not part of
  \<open>linear.py\<close>. The random source is a parameter: \<open>g k\<close> is the \<open>k\<close>-th draw of the
  generator from the unit interval. Every element is overwritten with its own draw, scaled
  to the interval from \<open>lo\<close> to \<open>hi\<close>; the generator is returned advanced past the draws
  used.
\<close>

definition uniform ::
  "real tensor \<Rightarrow> real \<Rightarrow> real \<Rightarrow> (nat \<Rightarrow> real) \<Rightarrow> real tensor \<times> (nat \<Rightarrow> real)" where
  "uniform x lo hi g =
     (Tensor (shape x) (map (\<lambda>k. lo + (hi - lo) * g k) [0..<length (data x)]),
      (\<lambda>k. g (k + length (data x))))"

text \<open>
  The attributes the two parametrised modules share (\<open>out_features\<close>, \<open>weight\<close>,
  \<open>bias\<close>), extended by the input sizes of each. An absent bias, Python's \<open>None\<close>,
  is the \<open>None\<close> of the option type.
\<close>

record 'a Module =
  out_features :: int
  weight :: "'a tensor"
  bias :: "'a tensor option"

record 'a Linear = "'a Module" +
  in_features :: int

record 'a Bilinear = "'a Module" +
  in1_features :: int
  in2_features :: int

text \<open>
  \<^verbatim>\<open>
  def reset_parameters(self):
      stdv = 1. / math.sqrt(self.weight.size(1))
      self.weight.data.uniform_(-stdv, stdv)
      if self.bias is not None:
          self.bias.data.uniform_(-stdv, stdv)
  \<close>
  The same body in \<open>Linear\<close> and in \<open>Bilinear\<close>. The division raises
  \<open>ZeroDivisionError\<close> when the square root is 0.
\<close>

definition reset_parameters ::
  "(real, 'z) Module_scheme \<Rightarrow> (nat \<Rightarrow> real) \<Rightarrow> error + (real, 'z) Module_scheme \<times> (nat \<Rightarrow> real)" where
  "reset_parameters self g =
     (case size_dim (weight self) 1 of
        Inl e \<Rightarrow> Inl e
      | Inr n \<Rightarrow>
          if sqrt (real n) = 0 then Inl ZeroDivisionError
          else
            let stdv = 1 / sqrt (real n);
                (w, g1) = uniform (weight self) (- stdv) stdv g
            in (case bias self of
                  None \<Rightarrow> Inr (self\<lparr>weight := w\<rparr>, g1)
                | Some b \<Rightarrow>
                    let (b', g2) = uniform b (- stdv) stdv g1
                    in Inr (self\<lparr>weight := w, bias := Some b'\<rparr>, g2)))"

text \<open>
  \<^verbatim>\<open>
  def __init__(self, in_features, out_features, bias=True):
      self.in_features = in_features
      self.out_features = out_features
      self.weight = Parameter(torch.Tensor(out_features, in_features))
      if bias:
          self.bias = Parameter(torch.Tensor(out_features))
      else:
          self.register_parameter('bias', None)
      self.reset_parameters()
  \<close>
  The allocator \<open>torch.Tensor\<close> is not part of \<open>linear.py\<close>: the constructor takes it
  as the parameter \<open>alloc\<close> and passes on what it answers for the sizes it is given.
  \<open>Linear_init\<close> is the constructor with the allocator \<open>Tensor_new\<close>.
\<close>

definition Linear_init_with ::
  "(int list \<Rightarrow> error + real tensor) \<Rightarrow> int \<Rightarrow> int \<Rightarrow> bool \<Rightarrow> (nat \<Rightarrow> real) \<Rightarrow>
     error + real Linear \<times> (nat \<Rightarrow> real)" where
  "Linear_init_with alloc in_f out_f has_bias g =
     (case alloc [out_f, in_f] of
        Inl e \<Rightarrow> Inl e
      | Inr w \<Rightarrow>
          (case (if has_bias then map_sum id Some (alloc [out_f]) else Inr None) of
             Inl e \<Rightarrow> Inl e
           | Inr b \<Rightarrow>
               reset_parameters
                 \<lparr>out_features = out_f, weight = w, bias = b, in_features = in_f\<rparr> g))"

definition Linear_init ::
  "int \<Rightarrow> int \<Rightarrow> bool \<Rightarrow> (nat \<Rightarrow> real) \<Rightarrow> error + real Linear \<times> (nat \<Rightarrow> real)" where
  "Linear_init in_f out_f has_bias g = Linear_init_with Tensor_new in_f out_f has_bias g"

text \<open>
  \<^verbatim>\<open>
  def __init__(self, in1_features, in2_features, out_features, bias=True):
      self.in1_features = in1_features
      self.in2_features = in2_features
      self.out_features = out_features
      self.weight = Parameter(torch.Tensor(out_features, in1_features, in2_features))
      if bias:
          self.bias = Parameter(torch.Tensor(out_features))
      else:
          self.register_parameter('bias', None)
      self.reset_parameters()
  \<close>
  Again with the allocator as the parameter \<open>alloc\<close>, and \<open>Bilinear_init\<close> the
  constructor with the allocator \<open>Tensor_new\<close>.
\<close>

definition Bilinear_init_with ::
  "(int list \<Rightarrow> error + real tensor) \<Rightarrow> int \<Rightarrow> int \<Rightarrow> int \<Rightarrow> bool \<Rightarrow> (nat \<Rightarrow> real) \<Rightarrow>
     error + real Bilinear \<times> (nat \<Rightarrow> real)" where
  "Bilinear_init_with alloc in1_f in2_f out_f has_bias g =
     (case alloc [out_f, in1_f, in2_f] of
        Inl e \<Rightarrow> Inl e
      | Inr w \<Rightarrow>
          (case (if has_bias then map_sum id Some (alloc [out_f]) else Inr None) of
             Inl e \<Rightarrow> Inl e
           | Inr b \<Rightarrow>
               reset_parameters
                 \<lparr>out_features = out_f, weight = w, bias = b,
                  in1_features = in1_f, in2_features = in2_f\<rparr> g))"

definition Bilinear_init ::
  "int \<Rightarrow> int \<Rightarrow> int \<Rightarrow> bool \<Rightarrow> (nat \<Rightarrow> real) \<Rightarrow> error + real Bilinear \<times> (nat \<Rightarrow> real)" where
  "Bilinear_init in1_f in2_f out_f has_bias g =
     Bilinear_init_with Tensor_new in1_f in2_f out_f has_bias g"

text \<open>
  \<^verbatim>\<open>
  def forward(self, input):
      return F.linear(input, self.weight, self.bias)

  def forward(self, input1, input2):
      return F.bilinear(input1, input2, self.weight, self.bias)
  \<close>
\<close>

definition Linear_forward :: "'a::comm_semiring_1 Linear \<Rightarrow> 'a tensor \<Rightarrow> error + 'a tensor" where
  "Linear_forward self input = linear input (weight self) (bias self)"

definition Bilinear_forward ::
  "'a::comm_semiring_1 Bilinear \<Rightarrow> 'a tensor \<Rightarrow> 'a tensor \<Rightarrow> error + 'a tensor" where
  "Bilinear_forward self input1 input2 = bilinear input1 input2 (weight self) (bias self)"

text \<open>
  What holds of a module after construction: the feature counts are not negative, the
  weight has the shape \<open>(out_features, in_features)\<close>, or
  \<open>(out_features, in1_features, in2_features)\<close>, and the bias, when there is one, the
  shape \<open>(out_features,)\<close>.
\<close>

definition bias_ok :: "('a, 'z) Module_scheme \<Rightarrow> bool" where
  "bias_ok self \<longleftrightarrow>
     (case bias self of
        None \<Rightarrow> True
      | Some b \<Rightarrow> wf_tensor b \<and> shape b = [nat (out_features self)])"

definition Linear_ok :: "'a Linear \<Rightarrow> bool" where
  "Linear_ok self \<longleftrightarrow>
     0 \<le> in_features self \<and> 0 \<le> out_features self \<and>
     wf_tensor (weight self) \<and>
     shape (weight self) = [nat (out_features self), nat (in_features self)] \<and>
     bias_ok self"

definition Bilinear_ok :: "'a Bilinear \<Rightarrow> bool" where
  "Bilinear_ok self \<longleftrightarrow>
     0 \<le> in1_features self \<and> 0 \<le> in2_features self \<and> 0 \<le> out_features self \<and>
     wf_tensor (weight self) \<and>
     shape (weight self) =
       [nat (out_features self), nat (in1_features self), nat (in2_features self)] \<and>
     bias_ok self"

text \<open>Every element of a tensor lies in the closed interval from \<open>- bound\<close> to \<open>bound\<close>.\<close>

definition elements_within :: "real \<Rightarrow> real tensor \<Rightarrow> bool" where
  "elements_within bound x \<longleftrightarrow> (\<forall>v \<in> set (data x). - bound \<le> v \<and> v \<le> bound)"

text \<open>A generator for the examples: every draw is the middle of the unit interval.\<close>

definition middle_draws :: "nat \<Rightarrow> real" where
  "middle_draws k = 1 / 2"

section \<open>Facts about the tensor library\<close>

lemma length_indices: "length (indices s) = prod_list s"
proof (induction s)
  case Nil
  show ?case by simp
next
  case (Cons d ds)
  have "length (indices (d # ds)) = (\<Sum>i\<leftarrow>[0..<d]. prod_list ds)"
    by (simp add: length_concat comp_def Cons.IH)
  also have "\<dots> = d * prod_list ds"
    by (simp add: sum_list_triv)
  finally show ?case by simp
qed

lemma set_indices: "set (indices s) = {idx. valid_index s idx}"
proof (induction s)
  case Nil
  show ?case by (auto simp: valid_index_def)
next
  case (Cons d ds)
  show ?case
    using Cons.IH by (auto simp: valid_index_def list_all2_Cons2)
qed

lemma concat_blocks: "concat (map (\<lambda>i. map (\<lambda>k. i * p + k) [0..<p]) [0..<d]) = [0..<d * p]"
proof (induction d)
  case 0
  show ?case by simp
next
  case (Suc d)
  have "map (\<lambda>k. d * p + k) [0..<p] = [d * p..<d * p + p]"
    using map_add_upt [of "d * p" p] by (simp add: add.commute)
  then show ?case
    using Suc.IH upt_add_eq_append [of 0 "d * p" p] by (simp add: add.commute)
qed

lemma map_offset_indices: "map (offset s) (indices s) = [0..<prod_list s]"
proof (induction s)
  case Nil
  show ?case by simp
next
  case (Cons d ds)
  have "map (offset (d # ds)) (indices (d # ds))
      = concat (map (\<lambda>i. map (\<lambda>k. i * prod_list ds + k) (map (offset ds) (indices ds))) [0..<d])"
    by (simp add: map_concat comp_def)
  also have "\<dots> = [0..<d * prod_list ds]"
    by (simp only: Cons.IH concat_blocks)
  finally show ?case by simp
qed

lemma offset_nth_indices: "p < prod_list s \<Longrightarrow> offset s (indices s ! p) = p"
proof -
  assume p: "p < prod_list s"
  then have "map (offset s) (indices s) ! p = offset s (indices s ! p)"
    by (simp add: length_indices)
  then show ?thesis
    using p by (simp add: map_offset_indices)
qed

lemma valid_index_nth:
  assumes "valid_index s idx"
  shows "offset s idx < prod_list s \<and> indices s ! offset s idx = idx"
proof -
  from assms have "idx \<in> set (indices s)"
    by (simp add: set_indices)
  then obtain p where p: "p < prod_list s" "indices s ! p = idx"
    by (auto simp: in_set_conv_nth length_indices)
  then have "offset s idx = p"
    using offset_nth_indices [of p s] by simp
  with p show ?thesis by simp
qed

lemma shape_tabulate [simp]: "shape (tabulate s f) = s"
  by (simp add: tabulate_def)

lemma wf_tabulate [simp]: "wf_tensor (tabulate s f)"
  by (simp add: tabulate_def wf_tensor_def length_indices)

lemma get_tabulate: "valid_index s idx \<Longrightarrow> get (tabulate s f) idx = f idx"
  using valid_index_nth [of s idx]
  by (simp add: get_def tabulate_def length_indices)

lemma tabulate_cong:
  "(\<And>idx. valid_index s idx \<Longrightarrow> f idx = g idx) \<Longrightarrow> tabulate s f = tabulate s g"
  by (simp add: tabulate_def set_indices)

lemma tabulate_get: "wf_tensor x \<Longrightarrow> tabulate (shape x) (get x) = x"
proof -
  assume wf: "wf_tensor x"
  have "map (get x) (indices (shape x)) = map ((!) (data x)) (map (offset (shape x)) (indices (shape x)))"
    by (simp add: get_def comp_def)
  also have "\<dots> = map ((!) (data x)) [0..<length (data x)]"
    using wf by (simp only: map_offset_indices wf_tensor_def)
  also have "\<dots> = data x"
    by (rule map_nth)
  finally show ?thesis
    by (simp add: tabulate_def)
qed

subsection \<open>Broadcasting against unsqueezed operands\<close>

lemma FiLM_loop_eq:
  "FiLM_loop n g b = (Tensor (shape g @ replicate n (Suc 0)) (data g), Tensor (shape b @ replicate n (Suc 0)) (data b))"
  by (induction n arbitrary: g b) (simp_all add: unsqueeze_last_def replicate_app_Cons_same)

lemma broadcast_same_length:
  "length a = length b \<Longrightarrow>
   broadcast_shapes a b = (if list_all2 compat a b then Some (map2 bdim a b) else None)"
  by (simp add: broadcast_shapes_def pad_shape_def Let_def)

lemma compat_ones_left: "list_all2 compat (replicate (length r) (Suc 0)) r"
  by (induction r) (simp_all add: compat_def)

lemma compat_ones_right: "list_all2 compat r (replicate (length r) (Suc 0))"
  by (induction r) (simp_all add: compat_def)

lemma compat_refl: "list_all2 compat a a"
  by (induction a) (simp_all add: compat_def)

lemma bdim_ones_left: "map2 bdim (replicate (length r) (Suc 0)) r = r"
  by (induction r) (simp_all add: bdim_def)

lemma bdim_ones_right: "map2 bdim r (replicate (length r) (Suc 0)) = r"
  by (induction r) (simp_all add: bdim_def)

lemma bdim_same: "map2 bdim a a = a"
  by (induction a) (simp_all add: bdim_def)

lemma broadcast_unsqueezed_left:
  "broadcast_shapes (a @ replicate (length r) (Suc 0)) (a @ r) = Some (a @ r)"
  by (simp add: broadcast_same_length list_all2_appendI compat_refl compat_ones_left
      bdim_same bdim_ones_left)

lemma broadcast_unsqueezed_right:
  "broadcast_shapes (a @ r) (a @ replicate (length r) (Suc 0)) = Some (a @ r)"
  by (simp add: broadcast_same_length list_all2_appendI compat_refl compat_ones_right
      bdim_same bdim_ones_right)

lemma offset_ones: "offset (replicate k (Suc 0)) (replicate k 0) = 0"
  by (induction k) simp_all

lemma offset_unsqueezed:
  "length i = length s \<Longrightarrow> offset (s @ replicate k (Suc 0)) (i @ replicate k 0) = offset s i"
  by (induction i s rule: list_induct2) (simp_all add: offset_ones)

lemma get_unsqueezed:
  "length i = length s \<Longrightarrow> get (Tensor (s @ replicate k (Suc 0)) d) (i @ replicate k 0) = get (Tensor s d) i"
  by (simp add: get_def offset_unsqueezed)

lemma zero_ones_valid:
  "list_all2 (<) idx s \<Longrightarrow> map2 (\<lambda>d i. if d = Suc 0 then 0 else i) s idx = idx"
  by (induction idx s rule: list_all2_induct) auto

lemma bidx_valid: "valid_index s idx \<Longrightarrow> bidx s idx = idx"
  by (simp add: valid_index_def bidx_def list_all2_lengthD zero_ones_valid)

lemma zero_ones_replicate:
  "length j = k \<Longrightarrow> map2 (\<lambda>d i. if d = Suc 0 then 0 else i) (replicate k (Suc 0)) j = replicate k (0::nat)"
  by (induction j arbitrary: k) auto

lemma bidx_unsqueezed:
  "valid_index a i \<Longrightarrow> length j = k \<Longrightarrow> bidx (a @ replicate k (Suc 0)) (i @ j) = i @ replicate k 0"
  by (simp add: bidx_def valid_index_def list_all2_lengthD zero_ones_valid zero_ones_replicate)

lemma FiLM_forward_eq:
  fixes input :: "'a::comm_semiring_1 tensor"
  assumes "shape input = N # C # rest" "shape scale = [N, C]" "shape shift = [N, C]"
  shows "FiLM_forward input scale shift =
     Inr (tabulate (N # C # rest)
       (\<lambda>idx. get scale (take 2 idx) * get input idx + get shift (take 2 idx)))"
proof -
  let ?k = "length rest"
  let ?s = "N # C # rest"
  have k: "nat (int (dim input) - 2) = ?k"
    using assms by (simp add: dim_def)
  have s: "?s = [N, C] @ rest" by simp
  have b1: "broadcast_shapes ([N, C] @ replicate ?k (Suc 0)) (shape input) = Some ?s"
    using broadcast_unsqueezed_left [of "[N, C]" rest] assms by simp
  have b2: "broadcast_shapes ?s ([N, C] @ replicate ?k (Suc 0)) = Some ?s"
    using broadcast_unsqueezed_right [of "[N, C]" rest] by simp
  have sc: "Tensor [N, C] (data scale) = scale" "Tensor [N, C] (data shift) = shift"
    using assms by (metis tensor.collapse)+
  have elem: "(get (tabulate ?s (\<lambda>idx. get (Tensor ([N, C] @ replicate ?k (Suc 0)) (data scale))
                     (bidx ([N, C] @ replicate ?k (Suc 0)) idx) * get input (bidx ?s idx))) (bidx ?s idx)
             + get (Tensor ([N, C] @ replicate ?k (Suc 0)) (data shift)) (bidx ([N, C] @ replicate ?k (Suc 0)) idx))
           = get scale (take 2 idx) * get input idx + get shift (take 2 idx)"
    if v: "valid_index ?s idx" for idx
  proof -
    from v obtain n c r where idx: "idx = n # c # r" and n: "n < N" and c: "c < C"
      and r: "list_all2 (<) r rest"
      by (auto simp: valid_index_def list_all2_Cons2)
    have v2: "valid_index [N, C] [n, c]" using n c by (simp add: valid_index_def)
    have lr: "length r = ?k" using r by (simp add: list_all2_lengthD)
    have bi: "bidx ([N, C] @ replicate ?k (Suc 0)) idx = [n, c] @ replicate ?k 0"
      using bidx_unsqueezed [OF v2 lr] idx by simp
    have g1: "get (Tensor ([N, C] @ replicate ?k (Suc 0)) d) ([n, c] @ replicate ?k 0) = get (Tensor [N, C] d) [n, c]" for d :: "'a list"
      by (rule get_unsqueezed) simp
    show ?thesis
      by (simp only: bidx_valid [OF v] get_tabulate [OF v] bi g1 sc) (simp add: idx)
  qed
  let ?g = "Tensor ([N, C] @ replicate ?k (Suc 0)) (data scale)"
  let ?b = "Tensor ([N, C] @ replicate ?k (Suc 0)) (data shift)"
  let ?F = "\<lambda>idx. get ?g (bidx (shape ?g) idx) * get input (bidx (shape input) idx)"
  have m: "mul ?g input = Inr (tabulate ?s ?F)"
    using b1 by (simp add: mul_def binop_def)
  have a: "add (tabulate ?s ?F) ?b =
      Inr (tabulate ?s (\<lambda>idx. get (tabulate ?s ?F) (bidx ?s idx) + get ?b (bidx (shape ?b) idx)))"
    using b2 by (simp add: add_def binop_def)
  have "FiLM_forward input scale shift =
      Inr (tabulate ?s (\<lambda>idx. get (tabulate ?s ?F) (bidx ?s idx) + get ?b (bidx (shape ?b) idx)))"
    using m a assms(2,3) by (simp add: FiLM_forward_def k FiLM_loop_eq)
  also have "tabulate ?s (\<lambda>idx. get (tabulate ?s ?F) (bidx ?s idx) + get ?b (bidx (shape ?b) idx))
      = tabulate ?s (\<lambda>idx. get scale (take 2 idx) * get input idx + get shift (take 2 idx))"
    by (rule tabulate_cong) (use elem assms(1) in simp)
  finally show ?thesis .
qed


lemma get_replicate:
  "valid_index s idx \<Longrightarrow> shape x = s \<Longrightarrow> data x = replicate (prod_list s) v \<Longrightarrow> get x idx = v"
  using valid_index_nth [of s idx] by (simp add: get_def)

section \<open>Claims about \<open>FiLM.forward\<close>\<close>

text \<open>
  Claim C3. For an input of shape \<open>(N, C, *)\<close> with any number of trailing dimensions and
  scale and shift of shape \<open>(N, C)\<close>, \<open>FiLM.forward\<close> returns a tensor of the shape of
  the input with \<open>output[n, c, ...] = scale[n, c] * input[n, c, ...] + shift[n, c]\<close>; the
  loop appends singleton dimensions to scale and shift until their rank is the rank of
  the input. With scale all ones and shift all zeros the input is returned unchanged, and
  an input of shape \<open>(1, 1, 2, 2)\<close> filled with 5, with scale \<open>[[2]]\<close> and shift
  \<open>[[1]]\<close>, gives 11 everywhere.
\<close>

theorem FiLM_forward_modulates:
  fixes input :: "'a::comm_semiring_1 tensor"
  assumes "shape input = N # C # rest" and "shape scale = [N, C]" and "shape shift = [N, C]"
  shows "(\<exists>output. FiLM_forward input scale shift = Inr output \<and> shape output = shape input \<and>
            (\<forall>n c r. n < N \<longrightarrow> c < C \<longrightarrow> valid_index rest r \<longrightarrow>
               get output (n # c # r) = get scale [n, c] * get input (n # c # r) + get shift [n, c])) \<and>
         (case FiLM_loop (nat (int (dim input) - 2)) scale shift of
            (gammas, betas) \<Rightarrow>
              dim gammas = dim input \<and> dim betas = dim input \<and>
              shape gammas = [N, C] @ replicate (length rest) 1 \<and> shape betas = shape gammas) \<and>
         (wf_tensor input \<longrightarrow> data scale = replicate (N * C) 1 \<longrightarrow> data shift = replicate (N * C) 0 \<longrightarrow>
            FiLM_forward input scale shift = Inr input) \<and>
         FiLM_forward (Tensor [1, 1, 2, 2] [5, 5, 5, 5]) (Tensor [1, 1] [2]) (Tensor [1, 1] [1 :: int])
           = Inr (Tensor [1, 1, 2, 2] [11, 11, 11, 11])"
proof (intro conjI impI)
  let ?out = "tabulate (N # C # rest)
       (\<lambda>idx. get scale (take 2 idx) * get input idx + get shift (take 2 idx))"
  have eq: "FiLM_forward input scale shift = Inr ?out"
    by (rule FiLM_forward_eq [OF assms])
  have "get ?out (n # c # r) = get scale [n, c] * get input (n # c # r) + get shift [n, c]"
    if "n < N" "c < C" "valid_index rest r" for n c r
  proof -
    have "valid_index (N # C # rest) (n # c # r)"
      using that by (simp add: valid_index_def)
    then show ?thesis by (simp add: get_tabulate)
  qed
  then show "\<exists>output. FiLM_forward input scale shift = Inr output \<and> shape output = shape input \<and>
            (\<forall>n c r. n < N \<longrightarrow> c < C \<longrightarrow> valid_index rest r \<longrightarrow>
               get output (n # c # r) = get scale [n, c] * get input (n # c # r) + get shift [n, c])"
    using eq assms(1) by simp
next
  show "case FiLM_loop (nat (int (dim input) - 2)) scale shift of
            (gammas, betas) \<Rightarrow>
              dim gammas = dim input \<and> dim betas = dim input \<and>
              shape gammas = [N, C] @ replicate (length rest) 1 \<and> shape betas = shape gammas"
    using assms by (simp add: FiLM_loop_eq dim_def)
next
  assume wf: "wf_tensor input" and ones: "data scale = replicate (N * C) 1"
    and zeros: "data shift = replicate (N * C) 0"
  have "tabulate (N # C # rest)
       (\<lambda>idx. get scale (take 2 idx) * get input idx + get shift (take 2 idx))
      = tabulate (N # C # rest) (get input)"
  proof (rule tabulate_cong)
    fix idx assume "valid_index (N # C # rest) idx"
    then obtain n c r where idx: "idx = n # c # r" and n: "n < N" and c: "c < C"
      by (auto simp: valid_index_def list_all2_Cons2)
    have v2: "valid_index [N, C] [n, c]" using n c by (simp add: valid_index_def)
    have "get scale [n, c] = 1" "get shift [n, c] = 0"
      using get_replicate [OF v2 assms(2), of 1] get_replicate [OF v2 assms(3), of 0] ones zeros
      by simp_all
    then show "get scale (take 2 idx) * get input idx + get shift (take 2 idx) = get input idx"
      by (simp add: idx)
  qed
  also have "\<dots> = input"
    using tabulate_get [OF wf] assms(1) by simp
  finally show "FiLM_forward input scale shift = Inr input"
    by (simp add: FiLM_forward_eq [OF assms])
next
  have "FiLM_forward (Tensor [1, 1, 2, 2] [5, 5, 5, 5]) (Tensor [1, 1] [2]) (Tensor [1, 1] [1 :: int])
      = Inr (tabulate [1, 1, 2, 2] (\<lambda>idx. get (Tensor [1, 1] [2]) (take 2 idx)
           * get (Tensor [1, 1, 2, 2] [5, 5, 5, 5]) idx + get (Tensor [1, 1] [1 :: int]) (take 2 idx)))"
    by (rule FiLM_forward_eq) simp_all
  also have "\<dots> = Inr (Tensor [1, 1, 2, 2] [11, 11, 11, 11])"
    by (simp add: tabulate_def get_def eval_nat_numeral upt_rec)
  finally show "FiLM_forward (Tensor [1, 1, 2, 2] [5, 5, 5, 5]) (Tensor [1, 1] [2]) (Tensor [1, 1] [1 :: int])
           = Inr (Tensor [1, 1, 2, 2] [11, 11, 11, 11])" .
qed

theorem FiLM_forward_modulates_witness:
  "shape (Tensor [1, 1, 2, 2] [5, 5, 5, 5 :: int]) = 1 # 1 # [2, 2] \<and>
   shape (Tensor [1, 1] [2 :: int]) = [1, 1] \<and> shape (Tensor [1, 1] [1 :: int]) = [1, 1] \<and>
   (\<exists>output. FiLM_forward (Tensor [1, 1, 2, 2] [5, 5, 5, 5]) (Tensor [1, 1] [2]) (Tensor [1, 1] [1 :: int])
        = Inr output \<and> shape output = [1, 1, 2, 2] \<and> get output [0, 0, 1, 0] = 11)"
proof -
  have v: "valid_index [2, 2] [1, 0]" by (simp add: valid_index_def)
  from FiLM_forward_modulates [of "Tensor [1, 1, 2, 2] [5, 5, 5, 5 :: int]" 1 1 "[2, 2]"
      "Tensor [1, 1] [2]" "Tensor [1, 1] [1]"]
  obtain y where o: "FiLM_forward (Tensor [1, 1, 2, 2] [5, 5, 5, 5]) (Tensor [1, 1] [2]) (Tensor [1, 1] [1 :: int])
        = Inr y" "shape y = [1, 1, 2, 2]"
      "\<forall>n c r. n < 1 \<longrightarrow> c < 1 \<longrightarrow> valid_index [2, 2] r \<longrightarrow>
          get y (n # c # r) = get (Tensor [1, 1] [2]) [n, c] * get (Tensor [1, 1, 2, 2] [5, 5, 5, 5]) (n # c # r)
             + get (Tensor [1, 1] [1]) [n, c]"
    by auto
  from o(3) v have "get y [0, 0, 1, 0] = 11"
    by (simp add: get_def)
  with o show ?thesis by simp
qed

text \<open>
  Claim C10. \<open>FiLM.forward\<close> validates no shape itself: its only failures are those of
  the library's \<open>*\<close> and \<open>+\<close>. The loop appends \<open>input.dim() - 2\<close> singleton
  dimensions to \<open>gammas\<close> and \<open>betas\<close>, a number fixed by the rank of the input alone.
  For an input of rank 2 or less the loop runs zero times and the result is
  \<open>gammas * input + betas\<close> under broadcasting, so an input of shape \<open>(C,)\<close> with
  \<open>gammas\<close> and \<open>betas\<close> of shape \<open>(N, C)\<close> gives an output of shape \<open>(N, C)\<close>
  and no error.
\<close>

theorem FiLM_forward_low_rank:
  fixes input :: "'a::comm_semiring_1 tensor"
  shows "(case FiLM_loop (nat (int (dim input) - 2)) gammas betas of
       (gammas', betas') \<Rightarrow>
          shape gammas' = shape gammas @ replicate (dim input - 2) 1 \<and>
          shape betas' = shape betas @ replicate (dim input - 2) 1 \<and>
          data gammas' = data gammas \<and> data betas' = data betas \<and>
          (\<forall>e. FiLM_forward input gammas betas = Inl e \<longrightarrow>
             mul gammas' input = Inl e \<or>
             (\<exists>scaled. mul gammas' input = Inr scaled \<and> add scaled betas' = Inl e))) \<and>
     (dim input \<le> 2 \<longrightarrow>
        FiLM_loop (nat (int (dim input) - 2)) gammas betas = (gammas, betas) \<and>
        FiLM_forward input gammas betas =
          (case mul gammas input of Inl e \<Rightarrow> Inl e | Inr scaled \<Rightarrow> add scaled betas)) \<and>
     (shape input = [C] \<longrightarrow> shape gammas = [N, C] \<longrightarrow> shape betas = [N, C] \<longrightarrow>
        (\<exists>y. FiLM_forward input gammas betas = Inr y \<and> shape y = [N, C]))"
proof (intro conjI impI)
  have n: "nat (int (dim input) - 2) = dim input - 2" by simp
  show "case FiLM_loop (nat (int (dim input) - 2)) gammas betas of
       (gammas', betas') \<Rightarrow>
          shape gammas' = shape gammas @ replicate (dim input - 2) 1 \<and>
          shape betas' = shape betas @ replicate (dim input - 2) 1 \<and>
          data gammas' = data gammas \<and> data betas' = data betas \<and>
          (\<forall>e. FiLM_forward input gammas betas = Inl e \<longrightarrow>
             mul gammas' input = Inl e \<or>
             (\<exists>scaled. mul gammas' input = Inr scaled \<and> add scaled betas' = Inl e))"
    unfolding FiLM_forward_def n FiLM_loop_eq
    by (auto split: sum.splits)
next
  assume "dim input \<le> 2"
  then have z: "nat (int (dim input) - 2) = 0" by simp
  show "FiLM_loop (nat (int (dim input) - 2)) gammas betas = (gammas, betas)"
    by (simp only: z FiLM_loop.simps)
  show "FiLM_forward input gammas betas =
          (case mul gammas input of Inl e \<Rightarrow> Inl e | Inr scaled \<Rightarrow> add scaled betas)"
    by (simp add: FiLM_forward_def z)
next
  assume s: "shape input = [C]" "shape gammas = [N, C]" "shape betas = [N, C]"
  have z: "nat (int (dim input) - 2) = 0" using s by (simp add: dim_def)
  have b1: "broadcast_shapes [N, C] [C] = Some [N, C]"
    by (simp add: broadcast_shapes_def pad_shape_def compat_def bdim_def)
  have b2: "broadcast_shapes [N, C] [N, C] = Some [N, C]"
    by (simp add: broadcast_shapes_def pad_shape_def compat_def bdim_def)
  show "\<exists>y. FiLM_forward input gammas betas = Inr y \<and> shape y = [N, C]"
    using s b1 b2 by (simp add: FiLM_forward_def z mul_def add_def binop_def)
qed

theorem FiLM_forward_low_rank_witness:
  "dim (Tensor [2] [10, 20 :: int]) \<le> 2 \<and>
   shape (Tensor [2] [10, 20 :: int]) = [2] \<and>
   shape (Tensor [3, 2] [1, 2, 3, 4, 5, 6 :: int]) = [3, 2] \<and>
   shape (Tensor [3, 2] [0, 0, 0, 0, 0, 1 :: int]) = [3, 2] \<and>
   FiLM_loop (nat (int (dim (Tensor [2] [10, 20 :: int])) - 2))
       (Tensor [3, 2] [1, 2, 3, 4, 5, 6 :: int]) (Tensor [3, 2] [0, 0, 0, 0, 0, 1])
     = (Tensor [3, 2] [1, 2, 3, 4, 5, 6], Tensor [3, 2] [0, 0, 0, 0, 0, 1]) \<and>
   (\<exists>y. FiLM_forward (Tensor [2] [10, 20]) (Tensor [3, 2] [1, 2, 3, 4, 5, 6 :: int])
          (Tensor [3, 2] [0, 0, 0, 0, 0, 1]) = Inr y \<and> shape y = [3, 2]) \<and>
   FiLM_forward (Tensor [2] [10, 20]) (Tensor [3] [1, 2, 3 :: int]) (Tensor [2] [0, 0])
     = Inl ShapeMismatch \<and>
   mul (Tensor [3] [1, 2, 3 :: int]) (Tensor [2] [10, 20]) = Inl ShapeMismatch"
proof -
  let ?x = "Tensor [2] [10, 20 :: int]"
  let ?g = "Tensor [3, 2] [1, 2, 3, 4, 5, 6 :: int]"
  let ?b = "Tensor [3, 2] [0, 0, 0, 0, 0, 1 :: int]"
  let ?g2 = "Tensor [3] [1, 2, 3 :: int]"
  let ?b2 = "Tensor [2] [0, 0 :: int]"
  note t = FiLM_forward_low_rank [where input = ?x and gammas = ?g and betas = ?b
      and C = 2 and N = 3]
  note t2 = FiLM_forward_low_rank [where input = ?x and gammas = ?g2 and betas = ?b2]
  have d: "dim ?x \<le> 2" by (simp add: dim_def)
  from t d have l: "FiLM_loop (nat (int (dim ?x) - 2)) ?g ?b = (?g, ?b)"
    by blast
  from t have "shape ?x = [2] \<longrightarrow> shape ?g = [3, 2] \<longrightarrow> shape ?b = [3, 2] \<longrightarrow>
      (\<exists>y. FiLM_forward ?x ?g ?b = Inr y \<and> shape y = [3, 2])"
    by blast
  then have e: "\<exists>y. FiLM_forward ?x ?g ?b = Inr y \<and> shape y = [3, 2]"
    by simp
  have bc: "broadcast_shapes [3] [2] = None"
    by (simp add: broadcast_shapes_def pad_shape_def compat_def)
  have f: "FiLM_forward ?x ?g2 ?b2 = Inl ShapeMismatch"
    using bc by (simp add: FiLM_forward_def dim_def mul_def binop_def)
  from t2 d have "FiLM_loop (nat (int (dim ?x) - 2)) ?g2 ?b2 = (?g2, ?b2)"
    by blast
  with t2 have "\<forall>e. FiLM_forward ?x ?g2 ?b2 = Inl e \<longrightarrow>
      mul ?g2 ?x = Inl e \<or> (\<exists>scaled. mul ?g2 ?x = Inr scaled \<and> add scaled ?b2 = Inl e)"
    by simp
  with f have "mul ?g2 ?x = Inl ShapeMismatch \<or>
      (\<exists>scaled. mul ?g2 ?x = Inr scaled \<and> add scaled ?b2 = Inl ShapeMismatch)"
    by blast
  moreover have "mul ?g2 ?x \<noteq> Inr scaled" for scaled
    using bc by (simp add: mul_def binop_def)
  ultimately have m: "mul ?g2 ?x = Inl ShapeMismatch"
    by blast
  from d l e f m show ?thesis by simp
qed

lemma broadcast_rank2_left:
  "broadcast_shapes (N1 # C1 # replicate (length rest) (Suc 0)) (N # C # rest) =
     (if compat N1 N \<and> compat C1 C then Some (bdim N1 N # bdim C1 C # rest) else None)"
  by (simp add: broadcast_same_length compat_ones_left bdim_ones_left)

lemma broadcast_rank2_right:
  "broadcast_shapes (N # C # rest) (N2 # C2 # replicate (length rest) (Suc 0)) =
     (if compat N N2 \<and> compat C C2 then Some (bdim N N2 # bdim C C2 # rest) else None)"
  by (simp add: broadcast_same_length compat_ones_right bdim_ones_right)

text \<open>
  Claim C5, as amended. The claim as stated (a \<open>ShapeMismatch\<close> whenever scale or shift
  is not of rank 2 or their sizes differ from the first two of the input, before any
  arithmetic) does not hold: \<open>FiLM.forward\<close> checks nothing, and a scale of rank 1 that
  broadcasts against the input is accepted. What holds: for scale and shift of
  rank 2 and an input of rank at least 2, the call fails with \<open>ShapeMismatch\<close> exactly
  when a size of scale is not broadcast-compatible with the matching size of the input
  (they differ and neither is 1), or a size of shift is not broadcast-compatible with
  that of the product \<open>gammas * input\<close>; otherwise it returns a tensor of the broadcast
  shape.
\<close>

theorem FiLM_forward_fails_iff:
  fixes input :: "'a::comm_semiring_1 tensor"
  assumes "shape input = N # C # rest" and "shape scale = [N1, C1]" and "shape shift = [N2, C2]"
  shows "(FiLM_forward input scale shift = Inl ShapeMismatch \<longleftrightarrow>
            \<not> (compat N1 N \<and> compat C1 C \<and> compat (bdim N1 N) N2 \<and> compat (bdim C1 C) C2)) \<and>
         ((\<exists>y. FiLM_forward input scale shift = Inr y \<and>
               shape y = bdim (bdim N1 N) N2 # bdim (bdim C1 C) C2 # rest) \<longleftrightarrow>
            compat N1 N \<and> compat C1 C \<and> compat (bdim N1 N) N2 \<and> compat (bdim C1 C) C2)"
proof -
  have k: "nat (int (dim input) - 2) = length rest"
    using assms by (simp add: dim_def)
  show ?thesis
    unfolding FiLM_forward_def k FiLM_loop_eq
    using assms
    by (auto simp: mul_def add_def binop_def broadcast_rank2_left broadcast_rank2_right)
qed

theorem FiLM_forward_fails_iff_witness:
  "shape (Tensor [2, 2] [1, 2, 3, 4 :: int]) = 2 # 2 # [] \<and>
   shape (Tensor [3, 2] [1, 1, 1, 1, 1, 1 :: int]) = [3, 2] \<and>
   shape (Tensor [2, 2] [0, 0, 0, 0 :: int]) = [2, 2] \<and>
   FiLM_forward (Tensor [2, 2] [1, 2, 3, 4 :: int]) (Tensor [3, 2] [1, 1, 1, 1, 1, 1])
     (Tensor [2, 2] [0, 0, 0, 0]) = Inl ShapeMismatch"
  using FiLM_forward_fails_iff [where input = "Tensor [2, 2] [1, 2, 3, 4 :: int]"
      and scale = "Tensor [3, 2] [1, 1, 1, 1, 1, 1]" and shift = "Tensor [2, 2] [0, 0, 0, 0]"
      and N = 2 and C = 2 and rest = "[]" and ?N1.0 = 3 and ?C1.0 = 2 and ?N2.0 = 2 and ?C2.0 = 2]
  by (simp add: compat_def)

text \<open>
  The claim C5 as stated fails: a scale of rank 1 and shape \<open>(2,)\<close> with an input of
  shape \<open>(2, 2)\<close> raises nothing; the scale is broadcast along the first dimension.
\<close>

theorem FiLM_forward_rank_counterexample:
  "dim (Tensor [2] [10, 100 :: int]) \<noteq> 2 \<and>
   FiLM_forward (Tensor [2, 2] [1, 2, 3, 4]) (Tensor [2] [10, 100 :: int]) (Tensor [2, 2] [0, 0, 0, 0])
     = Inr (Tensor [2, 2] [10, 200, 30, 400])"
  by (simp add: FiLM_forward_def dim_def mul_def add_def binop_def broadcast_shapes_def pad_shape_def
       compat_def bdim_def tabulate_def get_def bidx_def eval_nat_numeral upt_rec)

section \<open>Claims about \<open>Linear.forward\<close>\<close>

lemma valid_index_snoc:
  "valid_index (s @ [d]) idx \<longleftrightarrow> (\<exists>l j. idx = l @ [j] \<and> valid_index s l \<and> j < d)"
proof
  assume "valid_index (s @ [d]) idx"
  then show "\<exists>l j. idx = l @ [j] \<and> valid_index s l \<and> j < d"
    by (auto simp: valid_index_def list_all2_append2 list_all2_Cons2)
next
  assume "\<exists>l j. idx = l @ [j] \<and> valid_index s l \<and> j < d"
  then show "valid_index (s @ [d]) idx"
    by (auto simp: valid_index_def intro: list_all2_appendI)
qed

lemma sum_list_upt_lessThan:
  fixes f :: "nat \<Rightarrow> 'a::comm_monoid_add"
  shows "(\<Sum>i\<leftarrow>[0..<n]. f i) = (\<Sum>i<n. f i)"
  by (simp add: interv_sum_list_conv_sum_set_nat atLeast0LessThan)

lemma broadcast_suffix: "broadcast_shapes (a @ s) s = Some (a @ s)"
proof -
  have "pad_shape (length a + length s) s = replicate (length a) (Suc 0) @ s"
    by (simp add: pad_shape_def)
  moreover have "pad_shape (length a + length s) (a @ s) = a @ s"
    by (simp add: pad_shape_def)
  moreover have "list_all2 compat (a @ s) (replicate (length a) (Suc 0) @ s)"
    by (intro list_all2_appendI compat_ones_right compat_refl)
  moreover have "map2 bdim (a @ s) (replicate (length a) (Suc 0) @ s) = a @ s"
    by (simp add: bdim_ones_right bdim_same)
  moreover have "max (length (a @ s)) (length s) = length a + length s"
    by simp
  ultimately show ?thesis
    unfolding broadcast_shapes_def Let_def by (simp only: if_True)
qed

lemma bidx_suffix: "valid_index s i \<Longrightarrow> bidx s (l @ i) = i"
  by (simp add: bidx_def valid_index_def list_all2_lengthD zero_ones_valid)

lemma linear_eq:
  fixes input :: "'a::comm_semiring_1 tensor"
  assumes w: "shape w = [n_out, n_in]" and x: "shape input = lead @ [n_in]"
    and b: "case b of None \<Rightarrow> True | Some bt \<Rightarrow> shape bt = [n_out]"
  shows "linear input w b = Inr (tabulate (lead @ [n_out])
     (\<lambda>idx. (\<Sum>i<n_in. get input (butlast idx @ [i]) * get w [last idx, i]) +
        (case b of None \<Rightarrow> 0 | Some bt \<Rightarrow> get bt [last idx])))"
proof -
  let ?wt = "tabulate [n_in, n_out] (\<lambda>idx. get w (rev idx))"
  let ?M = "\<lambda>idx. \<Sum>i\<leftarrow>[0..<n_in]. get input (butlast idx @ [i]) * get ?wt [i, last idx]"
  let ?S = "\<lambda>idx. \<Sum>i<n_in. get input (butlast idx @ [i]) * get w [last idx, i]"
  have t: "tensor_t w = Inr ?wt"
    using w by (simp add: tensor_t_def dim_def)
  have mm: "matmul input ?wt = Inr (tabulate (lead @ [n_out]) ?M)"
    using x by (simp add: matmul_def dim_def)
  have MS: "?M idx = ?S idx" if "valid_index (lead @ [n_out]) idx" for idx
  proof -
    from that obtain l j where idx: "idx = l @ [j]" and j: "j < n_out"
      by (auto simp: valid_index_snoc)
    have "get ?wt [i, j] = get w [j, i]" if "i < n_in" for i
      using that j by (simp add: get_tabulate valid_index_def)
    then have "(\<Sum>i<n_in. get input (l @ [i]) * get ?wt [i, j]) = (\<Sum>i<n_in. get input (l @ [i]) * get w [j, i])"
      by simp
    then show ?thesis
      by (simp add: sum_list_upt_lessThan idx)
  qed
  show ?thesis
  proof (cases b)
    case None
    have "tabulate (lead @ [n_out]) ?M = tabulate (lead @ [n_out]) (\<lambda>idx. ?S idx + 0)"
      by (rule tabulate_cong) (simp add: MS)
    then show ?thesis
      using None t mm by (simp add: linear_def)
  next
    case (Some bt)
    then have bt: "shape bt = [n_out]" using b by simp
    have bs: "broadcast_shapes (lead @ [n_out]) [n_out] = Some (lead @ [n_out])"
      by (rule broadcast_suffix)
    have "tabulate (lead @ [n_out]) (\<lambda>idx. get (tabulate (lead @ [n_out]) ?M) (bidx (lead @ [n_out]) idx)
              + get bt (bidx [n_out] idx))
        = tabulate (lead @ [n_out]) (\<lambda>idx. ?S idx + get bt [last idx])"
    proof (rule tabulate_cong)
      fix idx assume v: "valid_index (lead @ [n_out]) idx"
      then obtain l j where idx: "idx = l @ [j]" and j: "j < n_out"
        by (auto simp: valid_index_snoc)
      have "bidx [n_out] idx = [last idx]"
        unfolding idx using j bidx_suffix [of "[n_out]" "[j]" l] by (simp add: valid_index_def)
      then show "get (tabulate (lead @ [n_out]) ?M) (bidx (lead @ [n_out]) idx) + get bt (bidx [n_out] idx)
          = ?S idx + get bt [last idx]"
        using MS [OF v] by (simp add: bidx_valid [OF v] get_tabulate [OF v])
    qed
    then show ?thesis
      using Some t mm bs bt by (simp add: linear_def add_def binop_def)
  qed
qed


text \<open>
  Claim C2. For a \<open>Linear\<close> module and an input of shape \<open>(..., in_features)\<close> with any
  leading dimensions, \<open>forward\<close> returns a tensor of shape \<open>(..., out_features)\<close> with
  \<open>output[..., j] = \<Sum>i. input[..., i] * weight[j, i]\<close>, plus \<open>bias[j]\<close> exactly when
  the module has a bias.
\<close>

theorem Linear_forward_affine:
  fixes self :: "'a::comm_semiring_1 Linear"
  assumes "Linear_ok self" and "shape input = lead @ [nat (in_features self)]"
  shows "\<exists>output. Linear_forward self input = Inr output \<and>
           shape output = lead @ [nat (out_features self)] \<and>
           (\<forall>l j. valid_index lead l \<longrightarrow> j < nat (out_features self) \<longrightarrow>
              (bias self = None \<longrightarrow>
                 get output (l @ [j]) =
                   (\<Sum>i<nat (in_features self). get input (l @ [i]) * get (weight self) [j, i])) \<and>
              (\<forall>b. bias self = Some b \<longrightarrow>
                 get output (l @ [j]) =
                   (\<Sum>i<nat (in_features self). get input (l @ [i]) * get (weight self) [j, i])
                     + get b [j]))"
proof -
  let ?F = "\<lambda>idx. (\<Sum>i<nat (in_features self). get input (butlast idx @ [i]) * get (weight self) [last idx, i]) +
        (case bias self of None \<Rightarrow> 0 | Some bt \<Rightarrow> get bt [last idx])"
  have w: "shape (weight self) = [nat (out_features self), nat (in_features self)]"
    using assms(1) by (simp add: Linear_ok_def)
  have b: "case bias self of None \<Rightarrow> True | Some bt \<Rightarrow> shape bt = [nat (out_features self)]"
    using assms(1) by (simp add: Linear_ok_def bias_ok_def split: option.splits)
  have eq: "Linear_forward self input = Inr (tabulate (lead @ [nat (out_features self)]) ?F)"
    unfolding Linear_forward_def by (rule linear_eq [OF w assms(2) b])
  have el: "get (tabulate (lead @ [nat (out_features self)]) ?F) (l @ [j]) =
      (\<Sum>i<nat (in_features self). get input (l @ [i]) * get (weight self) [j, i]) +
        (case bias self of None \<Rightarrow> 0 | Some bt \<Rightarrow> get bt [j])"
    if "valid_index lead l" "j < nat (out_features self)" for l j
  proof -
    have "valid_index (lead @ [nat (out_features self)]) (l @ [j])"
      using that by (auto simp: valid_index_snoc)
    then show ?thesis by (simp add: get_tabulate split: option.splits)
  qed
  show ?thesis
  proof (intro exI conjI allI impI)
    show "Linear_forward self input = Inr (tabulate (lead @ [nat (out_features self)]) ?F)"
      by (rule eq)
    show "shape (tabulate (lead @ [nat (out_features self)]) ?F) = lead @ [nat (out_features self)]"
      by simp
  next
    fix l j assume "valid_index lead l" "j < nat (out_features self)" "bias self = None"
    then show "get (tabulate (lead @ [nat (out_features self)]) ?F) (l @ [j]) =
        (\<Sum>i<nat (in_features self). get input (l @ [i]) * get (weight self) [j, i])"
      using el [of l j] by simp
  next
    fix l j b assume "valid_index lead l" "j < nat (out_features self)" "bias self = Some b"
    then show "get (tabulate (lead @ [nat (out_features self)]) ?F) (l @ [j]) =
        (\<Sum>i<nat (in_features self). get input (l @ [i]) * get (weight self) [j, i]) + get b [j]"
      using el [of l j] by simp
  qed
qed

theorem Linear_forward_affine_witness:
  "Linear_ok \<lparr>out_features = 2, weight = Tensor [2, 3] [1, 2, 3, 4, 5, 6 :: int],
      bias = Some (Tensor [2] [10, 20]), in_features = 3\<rparr> \<and>
   shape (Tensor [2, 3] [1, 0, 0, 0, 1, 1 :: int]) = [2] @ [nat 3] \<and>
   (\<exists>output. Linear_forward \<lparr>out_features = 2, weight = Tensor [2, 3] [1, 2, 3, 4, 5, 6 :: int],
        bias = Some (Tensor [2] [10, 20]), in_features = 3\<rparr> (Tensor [2, 3] [1, 0, 0, 0, 1, 1]) = Inr output \<and>
      shape output = [2, 2] \<and> get output [1, 0] = 15)"
proof -
  let ?m = "\<lparr>out_features = 2, weight = Tensor [2, 3] [1, 2, 3, 4, 5, 6 :: int],
      bias = Some (Tensor [2] [10, 20]), in_features = 3\<rparr>"
  let ?x = "Tensor [2, 3] [1, 0, 0, 0, 1, 1 :: int]"
  have ok: "Linear_ok ?m"
    by (simp add: Linear_ok_def bias_ok_def wf_tensor_def)
  have sh: "shape ?x = [2] @ [nat (in_features ?m)]"
    by simp
  from Linear_forward_affine [OF ok sh]
  obtain y where y: "Linear_forward ?m ?x = Inr y" "shape y = [2] @ [nat (out_features ?m)]"
    and el: "\<And>l j b. valid_index [2] l \<Longrightarrow> j < nat (out_features ?m) \<Longrightarrow> bias ?m = Some b \<Longrightarrow>
      get y (l @ [j]) = (\<Sum>i<nat (in_features ?m). get ?x (l @ [i]) * get (weight ?m) [j, i]) + get b [j]"
    by blast
  have "get y ([1] @ [0]) = (\<Sum>i<nat (in_features ?m). get ?x ([1] @ [i]) * get (weight ?m) [0, i])
      + get (Tensor [2] [10, 20]) [0]"
    by (rule el) (simp_all add: valid_index_def)
  then have "get y [1, 0] = 15"
    by (simp add: get_def eval_nat_numeral)
  with ok y show ?thesis by simp
qed

text \<open>
  Claim C8. For a \<open>Linear\<close> module and an input whose trailing dimension differs from
  \<open>in_features\<close>, \<open>forward\<close> fails with \<open>ShapeMismatch\<close>: the result is the error, no
  output tensor is computed. With \<open>in_features = 4\<close> an input with last dimension 5 fails.
\<close>

theorem Linear_forward_shape_mismatch:
  fixes self :: "'a::comm_semiring_1 Linear"
  assumes "Linear_ok self" and "shape input = lead @ [d]" and "int d \<noteq> in_features self"
  shows "Linear_forward self input = Inl ShapeMismatch"
proof -
  have w: "shape (weight self) = [nat (out_features self), nat (in_features self)]"
    and n: "0 \<le> in_features self"
    using assms(1) by (simp_all add: Linear_ok_def)
  have "d \<noteq> nat (in_features self)"
    using assms(3) n by auto
  then show ?thesis
    using w assms(2)
    by (simp add: Linear_forward_def linear_def tensor_t_def matmul_def dim_def)
qed


theorem Linear_forward_shape_mismatch_witness:
  "Linear_ok \<lparr>out_features = 1, weight = Tensor [1, 4] [1, 1, 1, 1 :: int], bias = None,
      in_features = 4\<rparr> \<and>
   shape (Tensor [5] [1, 2, 3, 4, 5 :: int]) = [] @ [5] \<and> int 5 \<noteq> 4 \<and>
   Linear_forward \<lparr>out_features = 1, weight = Tensor [1, 4] [1, 1, 1, 1 :: int], bias = None,
      in_features = 4\<rparr> (Tensor [5] [1, 2, 3, 4, 5]) = Inl ShapeMismatch"
proof -
  let ?m = "\<lparr>out_features = 1, weight = Tensor [1, 4] [1, 1, 1, 1 :: int], bias = None,
      in_features = 4\<rparr>"
  have ok: "Linear_ok ?m"
    by (simp add: Linear_ok_def bias_ok_def wf_tensor_def)
  have sh: "shape (Tensor [5] [1, 2, 3, 4, 5 :: int]) = [] @ [5]"
    by simp
  have ne: "int 5 \<noteq> in_features ?m"
    by simp
  from Linear_forward_shape_mismatch [OF ok sh ne] ok show ?thesis
    by simp
qed

text \<open>
  Claim C9. For a \<open>Linear\<close> module and an input of shape \<open>(B1, B2, in_features)\<close>,
  \<open>forward\<close> returns a tensor of shape \<open>(B1, B2, out_features)\<close> whose slice at every
  index \<open>b\<close> along the first dimension is \<open>forward\<close> of the slice of the input at \<open>b\<close>.
\<close>

theorem Linear_forward_slices:
  fixes self :: "'a::comm_semiring_1 Linear"
  assumes "Linear_ok self" and "shape input = [B1, B2, nat (in_features self)]" and "b < B1"
  shows "\<exists>y xb yb. Linear_forward self input = Inr y \<and>
           shape y = [B1, B2, nat (out_features self)] \<and>
           select input b = Inr xb \<and> shape xb = [B2, nat (in_features self)] \<and>
           Linear_forward self xb = Inr yb \<and> shape yb = [B2, nat (out_features self)] \<and>
           select y b = Inr yb"
proof -
  let ?I = "nat (in_features self)" and ?O = "nat (out_features self)"
  let ?bias = "\<lambda>j. case bias self of None \<Rightarrow> 0 | Some bt \<Rightarrow> get bt [j]"
  let ?F = "\<lambda>x idx. (\<Sum>i<?I. get x (butlast idx @ [i]) * get (weight self) [last idx, i]) + ?bias (last idx)"
  let ?xb = "tabulate [B2, ?I] (\<lambda>idx. get input (b # idx))"
  let ?y = "tabulate [B1, B2, ?O] (?F input)"
  let ?yb = "tabulate [B2, ?O] (?F ?xb)"
  have w: "shape (weight self) = [?O, ?I]"
    using assms(1) by (simp add: Linear_ok_def)
  have bs: "case bias self of None \<Rightarrow> True | Some bt \<Rightarrow> shape bt = [?O]"
    using assms(1) by (simp add: Linear_ok_def bias_ok_def split: option.splits)
  have y: "Linear_forward self input = Inr ?y"
    unfolding Linear_forward_def using linear_eq [OF w _ bs, of input "[B1, B2]"] assms(2) by simp
  have xb: "select input b = Inr ?xb"
    using assms(2,3) by (simp add: select_def)
  have yb: "Linear_forward self ?xb = Inr ?yb"
    unfolding Linear_forward_def using linear_eq [OF w _ bs, of ?xb "[B2]"] by simp
  have "tabulate [B2, ?O] (\<lambda>idx. get ?y (b # idx)) = ?yb"
  proof (rule tabulate_cong)
    fix idx assume "valid_index [B2, ?O] idx"
    then obtain r j where idx: "idx = [r, j]" and r: "r < B2" and j: "j < ?O"
      by (auto simp: valid_index_def list_all2_Cons2)
    have v: "valid_index [B1, B2, ?O] [b, r, j]"
      using assms(3) r j by (simp add: valid_index_def)
    have "get ?xb [r, i] = get input [b, r, i]" if "i < ?I" for i
      using that r by (simp add: get_tabulate valid_index_def)
    then have "(\<Sum>i<?I. get ?xb [r, i] * get (weight self) [j, i])
        = (\<Sum>i<?I. get input [b, r, i] * get (weight self) [j, i])"
      by simp
    then show "get ?y (b # idx) = ?F ?xb idx"
      unfolding idx by (simp add: get_tabulate [OF v] split: option.splits)
  qed
  then have sel: "select ?y b = Inr ?yb"
    using assms(3) by (simp add: select_def)
  show ?thesis
    using y xb yb sel by (intro exI [of _ ?y] exI [of _ ?xb] exI [of _ ?yb]) simp
qed


theorem Linear_forward_slices_witness:
  "Linear_ok \<lparr>out_features = 2, weight = Tensor [2, 3] [1, 2, 3, 4, 5, 6 :: int],
      bias = Some (Tensor [2] [10, 20]), in_features = 3\<rparr> \<and>
   shape (Tensor [2, 2, 3] [1, 0, 0, 0, 1, 0, 0, 0, 1, 1, 1, 1 :: int]) = [2, 2, nat 3] \<and>
   (1 :: nat) < 2 \<and>
   (\<exists>y yb. Linear_forward \<lparr>out_features = 2, weight = Tensor [2, 3] [1, 2, 3, 4, 5, 6 :: int],
        bias = Some (Tensor [2] [10, 20]), in_features = 3\<rparr>
          (Tensor [2, 2, 3] [1, 0, 0, 0, 1, 0, 0, 0, 1, 1, 1, 1]) = Inr y \<and>
      Linear_forward \<lparr>out_features = 2, weight = Tensor [2, 3] [1, 2, 3, 4, 5, 6 :: int],
        bias = Some (Tensor [2] [10, 20]), in_features = 3\<rparr>
          (Tensor [2, 3] [0, 0, 1, 1, 1, 1]) = Inr yb \<and>
      select y 1 = Inr yb)"
proof -
  let ?m = "\<lparr>out_features = 2, weight = Tensor [2, 3] [1, 2, 3, 4, 5, 6 :: int],
      bias = Some (Tensor [2] [10, 20]), in_features = 3\<rparr>"
  let ?x = "Tensor [2, 2, 3] [1, 0, 0, 0, 1, 0, 0, 0, 1, 1, 1, 1 :: int]"
  have ok: "Linear_ok ?m"
    by (simp add: Linear_ok_def bias_ok_def wf_tensor_def)
  have sh: "shape ?x = [2, 2, nat (in_features ?m)]"
    by simp
  have lt: "(1 :: nat) < 2" by simp
  have sel: "select ?x 1 = Inr (Tensor [2, 3] [0, 0, 1, 1, 1, 1])"
    by (simp add: select_def tabulate_def get_def eval_nat_numeral upt_rec)
  from Linear_forward_slices [OF ok sh lt]
  obtain y xb yb where "Linear_forward ?m ?x = Inr y" "select ?x 1 = Inr xb"
      "Linear_forward ?m xb = Inr yb" "select y 1 = Inr yb"
    by blast
  with sel ok show ?thesis by auto
qed

section \<open>Claims about \<open>Bilinear.forward\<close>\<close>

lemma bilinear_eq:
  fixes input1 :: "'a::comm_semiring_1 tensor"
  assumes w: "shape w = [n_out, n1, n2]"
    and x1: "shape input1 = lead @ [n1]" and x2: "shape input2 = lead @ [n2]"
    and b: "case b of None \<Rightarrow> True | Some bt \<Rightarrow> shape bt = [n_out]"
  shows "bilinear input1 input2 w b = Inr (tabulate (lead @ [n_out])
     (\<lambda>idx. (\<Sum>i<n1. \<Sum>k<n2. get input1 (butlast idx @ [i]) * get w [last idx, i, k]
                 * get input2 (butlast idx @ [k])) +
        (case b of None \<Rightarrow> 0 | Some bt \<Rightarrow> get bt [last idx])))"
proof -
  let ?n = "length lead"
  let ?inter = "tabulate (lead @ [n_out, n1])
      (\<lambda>idx. \<Sum>k\<leftarrow>[0..<n2]. get w [idx ! ?n, idx ! Suc ?n, k] * get input2 (take ?n idx @ [k]))"
  let ?M = "\<lambda>idx. \<Sum>i\<leftarrow>[0..<n1]. get input1 (butlast idx @ [i]) * get ?inter (idx @ [i])"
  let ?S = "\<lambda>idx. \<Sum>i<n1. \<Sum>k<n2. get input1 (butlast idx @ [i]) * get w [last idx, i, k]
                 * get input2 (butlast idx @ [k])"
  have unf: "bilinear input1 input2 w b =
      (case b of None \<Rightarrow> Inr (tabulate (lead @ [n_out]) ?M)
       | Some bt \<Rightarrow> add (tabulate (lead @ [n_out]) ?M) bt)"
    using w x1 x2 by (simp add: bilinear_def dim_def Let_def)
  have MS: "?M idx = ?S idx" if "valid_index (lead @ [n_out]) idx" for idx
  proof -
    from that obtain l j where idx: "idx = l @ [j]" and l: "valid_index lead l" and j: "j < n_out"
      by (auto simp: valid_index_snoc)
    have ll: "length l = ?n"
      using l by (simp add: valid_index_def list_all2_lengthD)
    have "get ?inter (l @ [j] @ [i]) = (\<Sum>k<n2. get w [j, i, k] * get input2 (l @ [k]))"
      if "i < n1" for i
    proof -
      have "valid_index (lead @ [n_out, n1]) (l @ [j] @ [i])"
        using l j that by (auto simp: valid_index_def intro: list_all2_appendI)
      then show ?thesis
        using ll by (simp add: get_tabulate sum_list_upt_lessThan nth_append)
    qed
    then have "(\<Sum>i<n1. get input1 (l @ [i]) * get ?inter (l @ [j] @ [i]))
        = (\<Sum>i<n1. get input1 (l @ [i]) * (\<Sum>k<n2. get w [j, i, k] * get input2 (l @ [k])))"
      by simp
    also have "\<dots> = (\<Sum>i<n1. \<Sum>k<n2. get input1 (l @ [i]) * get w [j, i, k] * get input2 (l @ [k]))"
      by (simp add: sum_distrib_left mult.assoc)
    finally show ?thesis
      by (simp add: sum_list_upt_lessThan idx)
  qed
  show ?thesis
  proof (cases b)
    case None
    have "tabulate (lead @ [n_out]) ?M = tabulate (lead @ [n_out]) (\<lambda>idx. ?S idx + 0)"
      by (rule tabulate_cong) (simp add: MS)
    then show ?thesis
      using None unf by simp
  next
    case (Some bt)
    then have bt: "shape bt = [n_out]" using b by simp
    have bs: "broadcast_shapes (lead @ [n_out]) [n_out] = Some (lead @ [n_out])"
      by (rule broadcast_suffix)
    have "tabulate (lead @ [n_out]) (\<lambda>idx. get (tabulate (lead @ [n_out]) ?M) (bidx (lead @ [n_out]) idx)
              + get bt (bidx [n_out] idx))
        = tabulate (lead @ [n_out]) (\<lambda>idx. ?S idx + get bt [last idx])"
    proof (rule tabulate_cong)
      fix idx assume v: "valid_index (lead @ [n_out]) idx"
      then obtain l j where idx: "idx = l @ [j]" and j: "j < n_out"
        by (auto simp: valid_index_snoc)
      have "bidx [n_out] idx = [last idx]"
        unfolding idx using j bidx_suffix [of "[n_out]" "[j]" l] by (simp add: valid_index_def)
      then show "get (tabulate (lead @ [n_out]) ?M) (bidx (lead @ [n_out]) idx) + get bt (bidx [n_out] idx)
          = ?S idx + get bt [last idx]"
        using MS [OF v] by (simp add: bidx_valid [OF v] get_tabulate [OF v])
    qed
    then show ?thesis
      using Some unf bs bt by (simp add: add_def binop_def)
  qed
qed


text \<open>
  Claim C1. For a \<open>Bilinear\<close> module and inputs of shapes \<open>(..., in1_features)\<close> and
  \<open>(..., in2_features)\<close> with the same leading dimensions, \<open>forward\<close> returns a tensor
  of shape \<open>(..., out_features)\<close> with
  \<open>output[..., j] = \<Sum>i. \<Sum>k. input1[..., i] * weight[j, i, k] * input2[..., k]\<close>, plus
  \<open>bias[j]\<close> when the module has a bias. With \<open>in1 = in2 = 2\<close>, \<open>out = 1\<close>, the
  weight \<open>[[[1, 0], [0, 1]]]\<close>, no bias and the inputs \<open>[1, 2]\<close> and \<open>[3, 4]\<close>, the
  output is \<open>[11]\<close>.
\<close>

theorem Bilinear_forward_bilinear:
  fixes self :: "'a::comm_semiring_1 Bilinear"
  assumes "Bilinear_ok self"
    and "shape input1 = lead @ [nat (in1_features self)]"
    and "shape input2 = lead @ [nat (in2_features self)]"
  shows "(\<exists>output. Bilinear_forward self input1 input2 = Inr output \<and>
           shape output = lead @ [nat (out_features self)] \<and>
           (\<forall>l j. valid_index lead l \<longrightarrow> j < nat (out_features self) \<longrightarrow>
              (bias self = None \<longrightarrow>
                 get output (l @ [j]) =
                   (\<Sum>i<nat (in1_features self). \<Sum>k<nat (in2_features self).
                      get input1 (l @ [i]) * get (weight self) [j, i, k] * get input2 (l @ [k]))) \<and>
              (\<forall>b. bias self = Some b \<longrightarrow>
                 get output (l @ [j]) =
                   (\<Sum>i<nat (in1_features self). \<Sum>k<nat (in2_features self).
                      get input1 (l @ [i]) * get (weight self) [j, i, k] * get input2 (l @ [k]))
                     + get b [j]))) \<and>
         Bilinear_forward \<lparr>out_features = 1, weight = Tensor [1, 2, 2] [1, 0, 0, 1 :: int],
             bias = None, in1_features = 2, in2_features = 2\<rparr> (Tensor [2] [1, 2]) (Tensor [2] [3, 4])
           = Inr (Tensor [1] [11])"
proof (rule conjI)
  let ?I1 = "nat (in1_features self)" and ?I2 = "nat (in2_features self)"
  let ?O = "nat (out_features self)"
  let ?S = "\<lambda>l j. \<Sum>i<?I1. \<Sum>k<?I2. get input1 (l @ [i]) * get (weight self) [j, i, k] * get input2 (l @ [k])"
  let ?F = "\<lambda>idx. ?S (butlast idx) (last idx) +
        (case bias self of None \<Rightarrow> 0 | Some bt \<Rightarrow> get bt [last idx])"
  have w: "shape (weight self) = [?O, ?I1, ?I2]"
    using assms(1) by (simp add: Bilinear_ok_def)
  have b: "case bias self of None \<Rightarrow> True | Some bt \<Rightarrow> shape bt = [?O]"
    using assms(1) by (simp add: Bilinear_ok_def bias_ok_def split: option.splits)
  have eq: "Bilinear_forward self input1 input2 = Inr (tabulate (lead @ [?O]) ?F)"
    unfolding Bilinear_forward_def by (rule bilinear_eq [OF w assms(2,3) b])
  have el: "get (tabulate (lead @ [?O]) ?F) (l @ [j]) =
      ?S l j + (case bias self of None \<Rightarrow> 0 | Some bt \<Rightarrow> get bt [j])"
    if "valid_index lead l" "j < ?O" for l j
  proof -
    have "valid_index (lead @ [?O]) (l @ [j])"
      using that by (auto simp: valid_index_snoc)
    then show ?thesis by (simp add: get_tabulate split: option.splits)
  qed
  show "\<exists>output. Bilinear_forward self input1 input2 = Inr output \<and>
           shape output = lead @ [?O] \<and>
           (\<forall>l j. valid_index lead l \<longrightarrow> j < ?O \<longrightarrow>
              (bias self = None \<longrightarrow> get output (l @ [j]) = ?S l j) \<and>
              (\<forall>b. bias self = Some b \<longrightarrow> get output (l @ [j]) = ?S l j + get b [j]))"
  proof (intro exI conjI allI impI)
    show "Bilinear_forward self input1 input2 = Inr (tabulate (lead @ [?O]) ?F)"
      by (rule eq)
    show "shape (tabulate (lead @ [?O]) ?F) = lead @ [?O]"
      by simp
  next
    fix l j assume "valid_index lead l" "j < ?O" "bias self = None"
    then show "get (tabulate (lead @ [?O]) ?F) (l @ [j]) = ?S l j"
      using el [of l j] by simp
  next
    fix l j b assume "valid_index lead l" "j < ?O" "bias self = Some b"
    then show "get (tabulate (lead @ [?O]) ?F) (l @ [j]) = ?S l j + get b [j]"
      using el [of l j] by simp
  qed
next
  let ?w = "Tensor [1, 2, 2] [1, 0, 0, 1 :: int]"
  have "bilinear (Tensor [2] [1, 2]) (Tensor [2] [3, 4]) ?w None = Inr (tabulate ([] @ [1])
     (\<lambda>idx. (\<Sum>i<2. \<Sum>k<2. get (Tensor [2] [1, 2]) (butlast idx @ [i]) * get ?w [last idx, i, k]
                 * get (Tensor [2] [3, 4]) (butlast idx @ [k])) +
        (case None :: int tensor option of None \<Rightarrow> 0 | Some bt \<Rightarrow> get bt [last idx])))"
    by (rule bilinear_eq) simp_all
  also have "\<dots> = Inr (Tensor [1] [11])"
    by (simp add: tabulate_def get_def eval_nat_numeral)
  finally show "Bilinear_forward \<lparr>out_features = 1, weight = ?w,
             bias = None, in1_features = 2, in2_features = 2\<rparr> (Tensor [2] [1, 2]) (Tensor [2] [3, 4])
           = Inr (Tensor [1] [11])"
    by (simp add: Bilinear_forward_def)
qed

theorem Bilinear_forward_bilinear_witness:
  "Bilinear_ok \<lparr>out_features = 1, weight = Tensor [1, 2, 2] [1, 0, 0, 1 :: int],
       bias = None, in1_features = 2, in2_features = 2\<rparr> \<and>
   shape (Tensor [2] [1, 2 :: int]) = [] @ [nat 2] \<and> shape (Tensor [2] [3, 4 :: int]) = [] @ [nat 2] \<and>
   (\<exists>output. Bilinear_forward \<lparr>out_features = 1, weight = Tensor [1, 2, 2] [1, 0, 0, 1 :: int],
        bias = None, in1_features = 2, in2_features = 2\<rparr> (Tensor [2] [1, 2]) (Tensor [2] [3, 4])
          = Inr output \<and>
      shape output = [1] \<and> get output [0] = 11)"
proof -
  let ?m = "\<lparr>out_features = 1, weight = Tensor [1, 2, 2] [1, 0, 0, 1 :: int],
       bias = None, in1_features = 2, in2_features = 2\<rparr>"
  let ?x1 = "Tensor [2] [1, 2 :: int]" and ?x2 = "Tensor [2] [3, 4 :: int]"
  have ok: "Bilinear_ok ?m"
    by (simp add: Bilinear_ok_def bias_ok_def wf_tensor_def)
  have s1: "shape ?x1 = [] @ [nat (in1_features ?m)]" and s2: "shape ?x2 = [] @ [nat (in2_features ?m)]"
    by simp_all
  from Bilinear_forward_bilinear [OF ok s1 s2]
  obtain y where y: "Bilinear_forward ?m ?x1 ?x2 = Inr y" "shape y = [] @ [nat (out_features ?m)]"
    and el: "\<And>l j. valid_index [] l \<Longrightarrow> j < nat (out_features ?m) \<Longrightarrow> bias ?m = None \<Longrightarrow>
      get y (l @ [j]) = (\<Sum>i<nat (in1_features ?m). \<Sum>k<nat (in2_features ?m).
          get ?x1 (l @ [i]) * get (weight ?m) [j, i, k] * get ?x2 (l @ [k]))"
    by blast
  have "get y ([] @ [0]) = (\<Sum>i<nat (in1_features ?m). \<Sum>k<nat (in2_features ?m).
          get ?x1 ([] @ [i]) * get (weight ?m) [0, i, k] * get ?x2 ([] @ [k]))"
    by (rule el) (simp_all add: valid_index_def)
  then have "get y [0] = 11"
    by (simp add: get_def eval_nat_numeral)
  with ok y show ?thesis by simp
qed

section \<open>Claims about construction and \<open>reset_parameters\<close>\<close>

lemma shape_uniform [simp]: "shape (fst (uniform x lo hi g)) = shape x"
  by (simp add: uniform_def)

lemma data_uniform:
  "data (fst (uniform x lo hi g)) = map (\<lambda>k. lo + (hi - lo) * g k) [0..<length (data x)]"
  by (simp add: uniform_def)

lemma snd_uniform: "snd (uniform x lo hi g) = (\<lambda>k. g (k + length (data x)))"
  by (simp add: uniform_def)

lemma wf_uniform [simp]: "wf_tensor (fst (uniform x lo hi g)) = wf_tensor x"
  by (simp add: uniform_def wf_tensor_def)

lemma uniform_within:
  assumes "\<forall>k. 0 \<le> g k \<and> g k \<le> 1" and "0 \<le> bound"
  shows "elements_within bound (fst (uniform x (- bound) bound g))"
proof -
  have "- bound \<le> - bound + (bound - - bound) * g k \<and> - bound + (bound - - bound) * g k \<le> bound" for k
  proof -
    have "0 \<le> g k" "g k \<le> 1" using assms(1) by simp_all
    then have "0 \<le> (2 * bound) * g k" "(2 * bound) * g k \<le> (2 * bound) * 1"
      using assms(2) by (simp_all add: mult_left_le)
    then show ?thesis by simp
  qed
  then show ?thesis
    by (auto simp: elements_within_def data_uniform)
qed

lemma reset_parameters_eq:
  assumes "shape (weight self) = d0 # n # ds" and "0 < n"
  shows "reset_parameters self g =
     (case bias self of
        None \<Rightarrow> Inr (self\<lparr>weight := fst (uniform (weight self) (- (1 / sqrt (real n))) (1 / sqrt (real n)) g)\<rparr>,
                    snd (uniform (weight self) (- (1 / sqrt (real n))) (1 / sqrt (real n)) g))
      | Some b \<Rightarrow>
          Inr (self\<lparr>weight := fst (uniform (weight self) (- (1 / sqrt (real n))) (1 / sqrt (real n)) g),
                    bias := Some (fst (uniform b (- (1 / sqrt (real n))) (1 / sqrt (real n))
                       (snd (uniform (weight self) (- (1 / sqrt (real n))) (1 / sqrt (real n)) g))))\<rparr>,
               snd (uniform b (- (1 / sqrt (real n))) (1 / sqrt (real n))
                       (snd (uniform (weight self) (- (1 / sqrt (real n))) (1 / sqrt (real n)) g)))))"
  using assms
  by (simp add: reset_parameters_def size_dim_def dim_def Let_def case_prod_beta split: option.splits)

lemma Linear_init_eq:
  assumes "0 < in_f" and "0 \<le> out_f"
  shows "Linear_init in_f out_f has_bias g =
     reset_parameters
       \<lparr>out_features = out_f,
        weight = Tensor [nat out_f, nat in_f] (replicate (nat out_f * nat in_f) 0),
        bias = (if has_bias then Some (Tensor [nat out_f] (replicate (nat out_f) 0)) else None),
        in_features = in_f\<rparr> g"
  using assms by (simp add: Linear_init_def Linear_init_with_def Tensor_new_def)

lemma Bilinear_init_eq:
  assumes "0 < in1_f" and "0 \<le> in2_f" and "0 \<le> out_f"
  shows "Bilinear_init in1_f in2_f out_f has_bias g =
     reset_parameters
       \<lparr>out_features = out_f,
        weight = Tensor [nat out_f, nat in1_f, nat in2_f]
          (replicate (nat out_f * (nat in1_f * nat in2_f)) 0),
        bias = (if has_bias then Some (Tensor [nat out_f] (replicate (nat out_f) 0)) else None),
        in1_features = in1_f, in2_features = in2_f\<rparr> g"
  using assms by (simp add: Bilinear_init_def Bilinear_init_with_def Tensor_new_def)

lemma Linear_init_bound:
  assumes g: "\<forall>k. 0 \<le> g k \<and> g k \<le> 1" and i: "0 < in_f" and o: "0 \<le> out_f"
  shows "\<exists>m g'. Linear_init in_f out_f has_bias g = Inr (m, g') \<and>
       data (weight m) = map (\<lambda>k. - (1 / sqrt (real_of_int in_f))
           + (1 / sqrt (real_of_int in_f) - - (1 / sqrt (real_of_int in_f))) * g k)
         [0..<nat out_f * nat in_f] \<and>
       elements_within (1 / sqrt (real_of_int in_f)) (weight m) \<and>
       (has_bias \<longrightarrow> (\<exists>b. bias m = Some b \<and>
          data b = map (\<lambda>k. - (1 / sqrt (real_of_int in_f))
             + (1 / sqrt (real_of_int in_f) - - (1 / sqrt (real_of_int in_f)))
               * g (k + nat out_f * nat in_f)) [0..<nat out_f] \<and>
          elements_within (1 / sqrt (real_of_int in_f)) b))"
proof -
  let ?bd = "1 / sqrt (real_of_int in_f)"
  have n: "0 < nat in_f" "real (nat in_f) = real_of_int in_f"
    using i by simp_all
  have bd: "0 \<le> ?bd" using i by simp
  have g1: "\<forall>k. 0 \<le> g (k + c) \<and> g (k + c) \<le> 1" for c
    using g by simp
  note r = reset_parameters_eq [where ?d0.0 = "nat out_f" and n = "nat in_f" and ds = "[]", OF _ n(1)]
  show ?thesis
    unfolding Linear_init_eq [OF i o]
    by (subst r; simp add: n(2) data_uniform snd_uniform uniform_within [OF g bd]
        uniform_within [OF g1 bd, unfolded snd_uniform])
qed


lemma Bilinear_init_bound:
  assumes g: "\<forall>k. 0 \<le> g k \<and> g k \<le> 1" and i: "0 < in1_f" and i2: "0 \<le> in2_f" and o: "0 \<le> out_f"
  shows "\<exists>m g'. Bilinear_init in1_f in2_f out_f has_bias g = Inr (m, g') \<and>
       data (weight m) = map (\<lambda>k. - (1 / sqrt (real_of_int in1_f))
           + (1 / sqrt (real_of_int in1_f) - - (1 / sqrt (real_of_int in1_f))) * g k)
         [0..<nat out_f * (nat in1_f * nat in2_f)] \<and>
       elements_within (1 / sqrt (real_of_int in1_f)) (weight m) \<and>
       (has_bias \<longrightarrow> (\<exists>b. bias m = Some b \<and>
          data b = map (\<lambda>k. - (1 / sqrt (real_of_int in1_f))
             + (1 / sqrt (real_of_int in1_f) - - (1 / sqrt (real_of_int in1_f)))
               * g (k + nat out_f * (nat in1_f * nat in2_f))) [0..<nat out_f] \<and>
          elements_within (1 / sqrt (real_of_int in1_f)) b))"
proof -
  let ?bd = "1 / sqrt (real_of_int in1_f)"
  have n: "0 < nat in1_f" "real (nat in1_f) = real_of_int in1_f"
    using i by simp_all
  have bd: "0 \<le> ?bd" using i by simp
  have g1: "\<forall>k. 0 \<le> g (k + c) \<and> g (k + c) \<le> 1" for c
    using g by simp
  note r = reset_parameters_eq [where ?d0.0 = "nat out_f" and n = "nat in1_f" and ds = "[nat in2_f]",
      OF _ n(1)]
  show ?thesis
    unfolding Bilinear_init_eq [OF i i2 o]
    by (subst r; simp add: n(2) data_uniform snd_uniform uniform_within [OF g bd]
        uniform_within [OF g1 bd, unfolded snd_uniform])
qed

lemma sqrt_100: "sqrt 100 = 10"
proof -
  have "sqrt 100 = sqrt (10\<^sup>2)" by simp
  also have "\<dots> = 10" by (simp only: real_sqrt_abs abs_numeral)
  finally show ?thesis .
qed

text \<open>
  Claim C4. For \<open>Linear\<close> and \<open>Bilinear\<close>, initialisation computes the bound
  \<open>1 / sqrt fan_in\<close>, where \<open>fan_in\<close> is the second dimension of the weight
  (\<open>in_features\<close>, and \<open>in1_features\<close> for \<open>Bilinear\<close>, whatever \<open>in2_features\<close> is),
  and overwrites every element of the weight, and of the bias when there is one, with a
  draw from the closed interval from \<open>- bound\<close> to \<open>bound\<close>: each element is its own
  draw of the generator, scaled from the unit interval to that interval. For
  \<open>Linear(100, 1)\<close> every weight element lies between \<open>-0.1\<close> and \<open>0.1\<close>. The
  generator is a parameter, taken to deliver draws from the unit interval; how its draws
  are distributed is the generator's matter.
\<close>

theorem init_uniform_bound:
  assumes "\<forall>k. 0 \<le> g k \<and> g k \<le> 1" and "0 < in_f" and "0 \<le> out_f" and "0 \<le> in2_f"
  shows "(\<exists>m g'. Linear_init in_f out_f has_bias g = Inr (m, g') \<and>
       data (weight m) = map (\<lambda>k. - (1 / sqrt (real_of_int in_f))
           + (1 / sqrt (real_of_int in_f) - - (1 / sqrt (real_of_int in_f))) * g k)
         [0..<nat out_f * nat in_f] \<and>
       elements_within (1 / sqrt (real_of_int in_f)) (weight m) \<and>
       (has_bias \<longrightarrow> (\<exists>b. bias m = Some b \<and>
          data b = map (\<lambda>k. - (1 / sqrt (real_of_int in_f))
             + (1 / sqrt (real_of_int in_f) - - (1 / sqrt (real_of_int in_f)))
               * g (k + nat out_f * nat in_f)) [0..<nat out_f] \<and>
          elements_within (1 / sqrt (real_of_int in_f)) b))) \<and>
     (\<exists>m g'. Bilinear_init in_f in2_f out_f has_bias g = Inr (m, g') \<and>
       data (weight m) = map (\<lambda>k. - (1 / sqrt (real_of_int in_f))
           + (1 / sqrt (real_of_int in_f) - - (1 / sqrt (real_of_int in_f))) * g k)
         [0..<nat out_f * (nat in_f * nat in2_f)] \<and>
       elements_within (1 / sqrt (real_of_int in_f)) (weight m) \<and>
       (has_bias \<longrightarrow> (\<exists>b. bias m = Some b \<and>
          data b = map (\<lambda>k. - (1 / sqrt (real_of_int in_f))
             + (1 / sqrt (real_of_int in_f) - - (1 / sqrt (real_of_int in_f)))
               * g (k + nat out_f * (nat in_f * nat in2_f))) [0..<nat out_f] \<and>
          elements_within (1 / sqrt (real_of_int in_f)) b))) \<and>
     (\<exists>m g'. Linear_init 100 1 has_bias g = Inr (m, g') \<and> elements_within (1 / 10) (weight m))"
proof (intro conjI)
  show "\<exists>m g'. Linear_init 100 1 has_bias g = Inr (m, g') \<and> elements_within (1 / 10) (weight m)"
    using Linear_init_bound [OF assms(1), of 100 1 has_bias] by (auto simp: sqrt_100)
qed (rule Linear_init_bound [OF assms(1,2,3)], rule Bilinear_init_bound [OF assms(1,2,4,3)])

theorem init_uniform_bound_witness:
  "(\<forall>k. 0 \<le> middle_draws k \<and> middle_draws k \<le> 1) \<and> (0 :: int) < 100 \<and> (0 :: int) \<le> 1 \<and>
   (\<exists>m g'. Linear_init 100 1 True middle_draws = Inr (m, g') \<and>
      elements_within (1 / 10) (weight m) \<and> data (weight m) = replicate 100 0)"
proof -
  have g: "\<forall>k. 0 \<le> middle_draws k \<and> middle_draws k \<le> 1"
    by (simp add: middle_draws_def)
  from init_uniform_bound [OF g, of 100 1 1 True]
  obtain m g' where m: "Linear_init 100 1 True middle_draws = Inr (m, g')"
      "data (weight m) = map (\<lambda>k. - (1 / sqrt (real_of_int 100))
           + (1 / sqrt (real_of_int 100) - - (1 / sqrt (real_of_int 100))) * middle_draws k)
         [0..<nat 1 * nat 100]"
      "elements_within (1 / sqrt (real_of_int 100)) (weight m)"
    by auto
  from m(2) have "data (weight m) = replicate 100 0"
    by (simp add: middle_draws_def map_replicate_const)
  with m(1,3) g show ?thesis
    by (auto simp: sqrt_100)
qed

lemma reset_parameters_bias:
  assumes "reset_parameters self g = Inr (self', g')"
  shows "map_option shape (bias self') = map_option shape (bias self) \<and>
         shape (weight self') = shape (weight self) \<and>
         out_features self' = out_features self"
  using assms
  by (auto simp: reset_parameters_def Let_def case_prod_beta
      split: sum.splits if_splits option.splits)

lemma Linear_init_ok:
  assumes i: "0 < in_f" and o: "0 \<le> out_f"
  shows "\<exists>m g'. Linear_init in_f out_f has_bias g = Inr (m, g') \<and> Linear_ok m \<and>
           in_features m = in_f \<and> out_features m = out_f \<and>
           (\<not> has_bias \<longrightarrow> bias m = None) \<and>
           (has_bias \<longrightarrow> (\<exists>b. bias m = Some b \<and> shape b = [nat out_f]))"
proof -
  have n: "0 < nat in_f" using i by simp
  note r = reset_parameters_eq [where ?d0.0 = "nat out_f" and n = "nat in_f" and ds = "[]", OF _ n]
  show ?thesis
    unfolding Linear_init_eq [OF i o]
    using i o
    by (subst r; simp add: Linear_ok_def bias_ok_def wf_tensor_def data_uniform)
qed

lemma Bilinear_init_ok:
  assumes i: "0 < in1_f" and i2: "0 \<le> in2_f" and o: "0 \<le> out_f"
  shows "\<exists>m g'. Bilinear_init in1_f in2_f out_f has_bias g = Inr (m, g') \<and> Bilinear_ok m \<and>
           in1_features m = in1_f \<and> in2_features m = in2_f \<and> out_features m = out_f \<and>
           (\<not> has_bias \<longrightarrow> bias m = None) \<and>
           (has_bias \<longrightarrow> (\<exists>b. bias m = Some b \<and> shape b = [nat out_f]))"
proof -
  have n: "0 < nat in1_f" using i by simp
  note r = reset_parameters_eq [where ?d0.0 = "nat out_f" and n = "nat in1_f" and ds = "[nat in2_f]",
      OF _ n]
  show ?thesis
    unfolding Bilinear_init_eq [OF i i2 o]
    using i i2 o
    by (subst r; simp add: Bilinear_ok_def bias_ok_def wf_tensor_def data_uniform)
qed

lemma reset_parameters_index:
  "dim (weight self) < 2 \<Longrightarrow> reset_parameters self g = Inl IndexError"
  by (simp add: reset_parameters_def size_dim_def)

lemma reset_parameters_zero_dim:
  "2 \<le> dim (weight self) \<Longrightarrow> shape (weight self) ! 1 = 0 \<Longrightarrow>
   reset_parameters self g = Inl ZeroDivisionError"
  by (simp add: reset_parameters_def size_dim_def)

lemma map_sum_Some_Inl: "map_sum id Some x = Inl e \<longleftrightarrow> x = Inl e"
  by (cases x) auto

lemma reset_parameters_errors:
  "reset_parameters self g = Inl e \<Longrightarrow> e = IndexError \<or> e = ZeroDivisionError"
  by (auto simp: reset_parameters_def size_dim_def Let_def case_prod_beta
      split: sum.splits if_splits option.splits)

text \<open>
  Claim C6, as amended. The claim as stated (every construction with a feature count of 0
  or below fails at once with a \<open>ConfigurationError\<close>, before any tensor is allocated) does
  not hold: the constructors validate nothing. The allocator \<open>torch.Tensor\<close> is not part
  of \<open>linear.py\<close>, so what holds is stated for every allocator. The constructor calls it
  with the feature counts as they are given. If it refuses the sizes of the weight or of
  the bias, construction fails with its error. If it returns the tensors, construction
  fails with \<open>IndexError\<close> when the weight has no second dimension, with
  \<open>ZeroDivisionError\<close> when that dimension is 0, and otherwise succeeds, the counts
  stored as they were given. Every error of a construction is the allocator's or one of
  these two of \<open>reset_parameters\<close>.
\<close>

theorem init_no_validation:
  "(\<forall>e. alloc [out_f, in_f] = Inl e \<or>
          (\<exists>w. alloc [out_f, in_f] = Inr w \<and> has_bias \<and> alloc [out_f] = Inl e) \<longrightarrow>
        Linear_init_with alloc in_f out_f has_bias g = Inl e) \<and>
   (\<forall>w. alloc [out_f, in_f] = Inr w \<longrightarrow> (has_bias \<longrightarrow> (\<exists>b. alloc [out_f] = Inr b)) \<longrightarrow>
        (dim w < 2 \<longrightarrow> Linear_init_with alloc in_f out_f has_bias g = Inl IndexError) \<and>
        (2 \<le> dim w \<and> shape w ! 1 = 0 \<longrightarrow>
           Linear_init_with alloc in_f out_f has_bias g = Inl ZeroDivisionError) \<and>
        (2 \<le> dim w \<and> 0 < shape w ! 1 \<longrightarrow>
           (\<exists>m g'. Linear_init_with alloc in_f out_f has_bias g = Inr (m, g') \<and>
              in_features m = in_f \<and> out_features m = out_f \<and>
              shape (weight m) = shape w \<and> (bias m = None \<longleftrightarrow> \<not> has_bias)))) \<and>
   (\<forall>e. Linear_init_with alloc in_f out_f has_bias g = Inl e \<longrightarrow>
        alloc [out_f, in_f] = Inl e \<or> (has_bias \<and> alloc [out_f] = Inl e) \<or>
        e = IndexError \<or> e = ZeroDivisionError) \<and>
   (\<forall>e. alloc [out_f, in1_f, in2_f] = Inl e \<or>
          (\<exists>w. alloc [out_f, in1_f, in2_f] = Inr w \<and> has_bias \<and> alloc [out_f] = Inl e) \<longrightarrow>
        Bilinear_init_with alloc in1_f in2_f out_f has_bias g = Inl e) \<and>
   (\<forall>w. alloc [out_f, in1_f, in2_f] = Inr w \<longrightarrow> (has_bias \<longrightarrow> (\<exists>b. alloc [out_f] = Inr b)) \<longrightarrow>
        (dim w < 2 \<longrightarrow> Bilinear_init_with alloc in1_f in2_f out_f has_bias g = Inl IndexError) \<and>
        (2 \<le> dim w \<and> shape w ! 1 = 0 \<longrightarrow>
           Bilinear_init_with alloc in1_f in2_f out_f has_bias g = Inl ZeroDivisionError) \<and>
        (2 \<le> dim w \<and> 0 < shape w ! 1 \<longrightarrow>
           (\<exists>m g'. Bilinear_init_with alloc in1_f in2_f out_f has_bias g = Inr (m, g') \<and>
              in1_features m = in1_f \<and> in2_features m = in2_f \<and> out_features m = out_f \<and>
              shape (weight m) = shape w \<and> (bias m = None \<longleftrightarrow> \<not> has_bias)))) \<and>
   (\<forall>e. Bilinear_init_with alloc in1_f in2_f out_f has_bias g = Inl e \<longrightarrow>
        alloc [out_f, in1_f, in2_f] = Inl e \<or> (has_bias \<and> alloc [out_f] = Inl e) \<or>
        e = IndexError \<or> e = ZeroDivisionError)"
proof (intro conjI allI impI)
  fix e assume "alloc [out_f, in_f] = Inl e \<or>
      (\<exists>w. alloc [out_f, in_f] = Inr w \<and> has_bias \<and> alloc [out_f] = Inl e)"
  then show "Linear_init_with alloc in_f out_f has_bias g = Inl e"
    by (auto simp: Linear_init_with_def)
next
  fix w assume a: "alloc [out_f, in_f] = Inr w" "has_bias \<longrightarrow> (\<exists>b. alloc [out_f] = Inr b)"
  then obtain b where b: "(if has_bias then map_sum id Some (alloc [out_f]) else Inr None) = Inr b"
      "b = None \<longleftrightarrow> \<not> has_bias"
    by (cases has_bias) auto
  let ?self = "\<lparr>out_features = out_f, weight = w, bias = b, in_features = in_f\<rparr>"
  have eq: "Linear_init_with alloc in_f out_f has_bias g = reset_parameters ?self g"
    using a(1) b(1) by (simp add: Linear_init_with_def)
  { assume "dim w < 2"
    then show "Linear_init_with alloc in_f out_f has_bias g = Inl IndexError"
      unfolding eq by (intro reset_parameters_index) simp }
  { assume "2 \<le> dim w \<and> shape w ! 1 = 0"
    then show "Linear_init_with alloc in_f out_f has_bias g = Inl ZeroDivisionError"
      unfolding eq by (intro reset_parameters_zero_dim) simp_all }
  { assume "2 \<le> dim w \<and> 0 < shape w ! 1"
    with b(2)
    show "\<exists>m g'. Linear_init_with alloc in_f out_f has_bias g = Inr (m, g') \<and>
              in_features m = in_f \<and> out_features m = out_f \<and>
              shape (weight m) = shape w \<and> (bias m = None \<longleftrightarrow> \<not> has_bias)"
      unfolding eq
      by (cases b) (auto simp: reset_parameters_def size_dim_def Let_def case_prod_beta uniform_def) }
next
  fix e assume "Linear_init_with alloc in_f out_f has_bias g = Inl e"
  then show "alloc [out_f, in_f] = Inl e \<or> (has_bias \<and> alloc [out_f] = Inl e) \<or>
        e = IndexError \<or> e = ZeroDivisionError"
    by (auto simp: Linear_init_with_def map_sum_Some_Inl split: sum.splits if_splits
        dest: reset_parameters_errors)
next
  fix e assume "alloc [out_f, in1_f, in2_f] = Inl e \<or>
      (\<exists>w. alloc [out_f, in1_f, in2_f] = Inr w \<and> has_bias \<and> alloc [out_f] = Inl e)"
  then show "Bilinear_init_with alloc in1_f in2_f out_f has_bias g = Inl e"
    by (auto simp: Bilinear_init_with_def)
next
  fix w assume a: "alloc [out_f, in1_f, in2_f] = Inr w" "has_bias \<longrightarrow> (\<exists>b. alloc [out_f] = Inr b)"
  then obtain b where b: "(if has_bias then map_sum id Some (alloc [out_f]) else Inr None) = Inr b"
      "b = None \<longleftrightarrow> \<not> has_bias"
    by (cases has_bias) auto
  let ?self = "\<lparr>out_features = out_f, weight = w, bias = b,
      in1_features = in1_f, in2_features = in2_f\<rparr>"
  have eq: "Bilinear_init_with alloc in1_f in2_f out_f has_bias g = reset_parameters ?self g"
    using a(1) b(1) by (simp add: Bilinear_init_with_def)
  { assume "dim w < 2"
    then show "Bilinear_init_with alloc in1_f in2_f out_f has_bias g = Inl IndexError"
      unfolding eq by (intro reset_parameters_index) simp }
  { assume "2 \<le> dim w \<and> shape w ! 1 = 0"
    then show "Bilinear_init_with alloc in1_f in2_f out_f has_bias g = Inl ZeroDivisionError"
      unfolding eq by (intro reset_parameters_zero_dim) simp_all }
  { assume "2 \<le> dim w \<and> 0 < shape w ! 1"
    with b(2)
    show "\<exists>m g'. Bilinear_init_with alloc in1_f in2_f out_f has_bias g = Inr (m, g') \<and>
              in1_features m = in1_f \<and> in2_features m = in2_f \<and> out_features m = out_f \<and>
              shape (weight m) = shape w \<and> (bias m = None \<longleftrightarrow> \<not> has_bias)"
      unfolding eq
      by (cases b) (auto simp: reset_parameters_def size_dim_def Let_def case_prod_beta uniform_def) }
next
  fix e assume "Bilinear_init_with alloc in1_f in2_f out_f has_bias g = Inl e"
  then show "alloc [out_f, in1_f, in2_f] = Inl e \<or> (has_bias \<and> alloc [out_f] = Inl e) \<or>
        e = IndexError \<or> e = ZeroDivisionError"
    by (auto simp: Bilinear_init_with_def map_sum_Some_Inl split: sum.splits if_splits
        dest: reset_parameters_errors)
qed


theorem init_no_validation_witness:
  "Linear_init_with Tensor_new 2 (- 1) True middle_draws = Inl NegativeDimension \<and>
   Linear_init_with Tensor_truncating 0 2 True middle_draws = Inl IndexError \<and>
   Linear_init_with Tensor_new 0 2 True middle_draws = Inl ZeroDivisionError \<and>
   (\<exists>m g'. Linear_init_with Tensor_new 3 0 True middle_draws = Inr (m, g') \<and>
       in_features m = 3 \<and> out_features m = 0 \<and> shape (weight m) = [0, 3]) \<and>
   Bilinear_init_with Tensor_new 2 (- 1) 2 True middle_draws = Inl NegativeDimension \<and>
   Bilinear_init_with Tensor_truncating 0 2 2 True middle_draws = Inl IndexError \<and>
   Bilinear_init_with Tensor_new 0 2 2 True middle_draws = Inl ZeroDivisionError \<and>
   (\<exists>m g'. Bilinear_init_with Tensor_truncating 1 0 1 True middle_draws = Inr (m, g') \<and>
       in1_features m = 1 \<and> in2_features m = 0 \<and> out_features m = 1 \<and>
       shape (weight m) = [1, 1])"
proof -
  have n: "Tensor_new [- 1, 2] = Inl NegativeDimension"
      "Tensor_new [2, 2, - 1] = Inl NegativeDimension"
      "Tensor_new [2, 0] = Inr (Tensor [2, 0] [])"
      "Tensor_new [0, 3] = Inr (Tensor [0, 3] [])"
      "Tensor_new [2, 0, 2] = Inr (Tensor [2, 0, 2] [])"
      "Tensor_new [2] = Inr (Tensor [2] [0, 0])"
      "Tensor_new [0] = Inr (Tensor [0] [])"
    by (simp_all add: Tensor_new_def eval_nat_numeral)
  have t: "Tensor_truncating [2, 0] = Inr (Tensor [2] [0, 0])"
      "Tensor_truncating [2, 0, 2] = Inr (Tensor [2] [0, 0])"
      "Tensor_truncating [1, 1, 0] = Inr (Tensor [1, 1] [0])"
      "Tensor_truncating [2] = Inr (Tensor [2] [0, 0])"
      "Tensor_truncating [1] = Inr (Tensor [1] [0])"
    by (simp_all add: Tensor_truncating_def eval_nat_numeral)
  have w1: "Linear_init_with Tensor_new 2 (- 1) True middle_draws = Inl NegativeDimension"
    using init_no_validation
        [of Tensor_new "- 1" 2 True middle_draws 0 0,
         THEN conjunct1, rule_format, of NegativeDimension]
      n(1)
    by simp
  have w2: "Linear_init_with Tensor_truncating 0 2 True middle_draws = Inl IndexError"
    using init_no_validation
        [of Tensor_truncating 2 0 True middle_draws 0 0,
         THEN conjunct2, THEN conjunct1, rule_format, of "Tensor [2] [0, 0]"]
      t(1,4)
    by (simp add: dim_def)
  have w3: "Linear_init_with Tensor_new 0 2 True middle_draws = Inl ZeroDivisionError"
    using init_no_validation
        [of Tensor_new 2 0 True middle_draws 0 0,
         THEN conjunct2, THEN conjunct1, rule_format, of "Tensor [2, 0] []"]
      n(3,6)
    by (simp add: dim_def)
  have w4: "\<exists>m g'. Linear_init_with Tensor_new 3 0 True middle_draws = Inr (m, g') \<and>
       in_features m = 3 \<and> out_features m = 0 \<and> shape (weight m) = [0, 3]"
    using init_no_validation
        [of Tensor_new 0 3 True middle_draws 0 0,
         THEN conjunct2, THEN conjunct1, rule_format, of "Tensor [0, 3] []"]
      n(4,7)
    by (auto simp: dim_def)
  have w5: "Bilinear_init_with Tensor_new 2 (- 1) 2 True middle_draws = Inl NegativeDimension"
    using init_no_validation
        [of Tensor_new 2 0 True middle_draws 2 "- 1",
         THEN conjunct2, THEN conjunct2, THEN conjunct2, THEN conjunct1, rule_format, of NegativeDimension]
      n(2)
    by simp
  have w6: "Bilinear_init_with Tensor_truncating 0 2 2 True middle_draws = Inl IndexError"
    using init_no_validation
        [of Tensor_truncating 2 0 True middle_draws 0 2,
         THEN conjunct2, THEN conjunct2, THEN conjunct2, THEN conjunct2, THEN conjunct1, rule_format, of "Tensor [2] [0, 0]"]
      t(2,4)
    by (simp add: dim_def)
  have w7: "Bilinear_init_with Tensor_new 0 2 2 True middle_draws = Inl ZeroDivisionError"
    using init_no_validation
        [of Tensor_new 2 0 True middle_draws 0 2,
         THEN conjunct2, THEN conjunct2, THEN conjunct2, THEN conjunct2, THEN conjunct1, rule_format, of "Tensor [2, 0, 2] []"]
      n(5,6)
    by (simp add: dim_def)
  have w8: "\<exists>m g'. Bilinear_init_with Tensor_truncating 1 0 1 True middle_draws = Inr (m, g') \<and>
       in1_features m = 1 \<and> in2_features m = 0 \<and> out_features m = 1 \<and>
       shape (weight m) = [1, 1]"
    using init_no_validation
        [of Tensor_truncating 1 0 True middle_draws 1 0,
         THEN conjunct2, THEN conjunct2, THEN conjunct2, THEN conjunct2, THEN conjunct1, rule_format, of "Tensor [1, 1] [0]"]
      t(3,5)
    by (auto simp: dim_def)
  from w1 w2 w3 w4 w5 w6 w7 w8 show ?thesis by (intro conjI)
qed

text \<open>
  The claim C6 as stated fails, for an allocator that keeps a size of 0 as a dimension as
  for one that ends the shape at the first size that is not positive:
  \<open>Bilinear(1, 0, 1)\<close> is constructed under both, and \<open>Linear(0, 1)\<close> fails in
  \<open>reset_parameters\<close>, after the allocation, with \<open>ZeroDivisionError\<close> under the first
  and with \<open>IndexError\<close> under the second.
\<close>

theorem init_nonpositive_counterexample:
  "map_sum id fst (Bilinear_init_with Tensor_new 1 0 1 True middle_draws) =
      Inr \<lparr>out_features = 1, weight = Tensor [1, 1, 0] [], bias = Some (Tensor [1] [0]),
           in1_features = 1, in2_features = 0\<rparr> \<and>
   map_sum id fst (Bilinear_init_with Tensor_truncating 1 0 1 True middle_draws) =
      Inr \<lparr>out_features = 1, weight = Tensor [1, 1] [0], bias = Some (Tensor [1] [0]),
           in1_features = 1, in2_features = 0\<rparr> \<and>
   Linear_init_with Tensor_new 0 1 True middle_draws = Inl ZeroDivisionError \<and>
   Linear_init_with Tensor_truncating 0 1 True middle_draws = Inl IndexError"
  by (simp add: Linear_init_with_def Bilinear_init_with_def Tensor_new_def Tensor_truncating_def
      reset_parameters_def size_dim_def dim_def uniform_def middle_draws_def)

text \<open>
  Claim C7. A \<open>Linear\<close> or \<open>Bilinear\<close> module constructed without bias has no bias
  tensor at all: the attribute is \<open>None\<close>, not a tensor of zeros, and \<open>forward\<close> then
  performs no addition. Constructed with bias, the bias has the shape \<open>(out_features,)\<close>.
  \<open>reset_parameters\<close>, the only operation that writes to a module, keeps an absent bias
  absent and a present bias at its shape; \<open>forward\<close> returns a new tensor and writes
  nothing.
\<close>

theorem bias_absent_or_shaped:
  fixes self :: "(real, 'z) Module_scheme"
  assumes "0 < in_f" and "0 \<le> out_f" and "0 \<le> in2_f"
  shows "(\<exists>m g'. Linear_init in_f out_f has_bias g = Inr (m, g') \<and>
            (\<not> has_bias \<longrightarrow> bias m = None \<and>
               (\<forall>x. Linear_forward m x =
                  (case tensor_t (weight m) of Inl e \<Rightarrow> Inl e | Inr wt \<Rightarrow> matmul x wt))) \<and>
            (has_bias \<longrightarrow> (\<exists>b. bias m = Some b \<and> shape b = [nat out_f]))) \<and>
         (\<exists>m g'. Bilinear_init in_f in2_f out_f has_bias g = Inr (m, g') \<and>
            (\<not> has_bias \<longrightarrow> bias m = None \<and>
               (\<forall>x1 x2. Bilinear_forward m x1 x2 = bilinear x1 x2 (weight m) None)) \<and>
            (has_bias \<longrightarrow> (\<exists>b. bias m = Some b \<and> shape b = [nat out_f]))) \<and>
         (\<forall>g2 self' g3. reset_parameters self g2 = Inr (self', g3) \<longrightarrow>
            (bias self' = None \<longleftrightarrow> bias self = None) \<and>
            map_option shape (bias self') = map_option shape (bias self) \<and>
            out_features self' = out_features self)"
proof (intro conjI allI impI)
  from Linear_init_ok [OF assms(1,2), of has_bias g]
  obtain m g' where m: "Linear_init in_f out_f has_bias g = Inr (m, g')"
      "\<not> has_bias \<longrightarrow> bias m = None"
      "has_bias \<longrightarrow> (\<exists>b. bias m = Some b \<and> shape b = [nat out_f])"
    by blast
  have "Linear_forward m x = (case tensor_t (weight m) of Inl e \<Rightarrow> Inl e | Inr wt \<Rightarrow> matmul x wt)"
    if "bias m = None" for x
    using that by (simp add: Linear_forward_def linear_def split: sum.splits)
  with m show "\<exists>m g'. Linear_init in_f out_f has_bias g = Inr (m, g') \<and>
            (\<not> has_bias \<longrightarrow> bias m = None \<and>
               (\<forall>x. Linear_forward m x =
                  (case tensor_t (weight m) of Inl e \<Rightarrow> Inl e | Inr wt \<Rightarrow> matmul x wt))) \<and>
            (has_bias \<longrightarrow> (\<exists>b. bias m = Some b \<and> shape b = [nat out_f]))"
    by blast
next
  from Bilinear_init_ok [OF assms(1,3,2), of has_bias g]
  obtain m g' where m: "Bilinear_init in_f in2_f out_f has_bias g = Inr (m, g')"
      "\<not> has_bias \<longrightarrow> bias m = None"
      "has_bias \<longrightarrow> (\<exists>b. bias m = Some b \<and> shape b = [nat out_f])"
    by blast
  have "Bilinear_forward m x1 x2 = bilinear x1 x2 (weight m) None" if "bias m = None" for x1 x2
    using that by (simp add: Bilinear_forward_def)
  with m show "\<exists>m g'. Bilinear_init in_f in2_f out_f has_bias g = Inr (m, g') \<and>
            (\<not> has_bias \<longrightarrow> bias m = None \<and>
               (\<forall>x1 x2. Bilinear_forward m x1 x2 = bilinear x1 x2 (weight m) None)) \<and>
            (has_bias \<longrightarrow> (\<exists>b. bias m = Some b \<and> shape b = [nat out_f]))"
    by blast
next
  fix g2 self' g3 assume r: "reset_parameters self g2 = Inr (self', g3)"
  from reset_parameters_bias [OF r]
  show "map_option shape (bias self') = map_option shape (bias self)"
    and "out_features self' = out_features self"
    by simp_all
  then show "bias self' = None \<longleftrightarrow> bias self = None"
    by (metis option.map_disc_iff)
qed

theorem bias_absent_or_shaped_witness:
  "(0 :: int) < 1 \<and> (0 :: int) \<le> 2 \<and>
   (\<exists>m g'. Linear_init 1 2 False middle_draws = Inr (m, g') \<and> bias m = None) \<and>
   (\<exists>m g'. Bilinear_init 1 2 2 False middle_draws = Inr (m, g') \<and> bias m = None) \<and>
   (\<exists>m g'. Linear_init 1 2 True middle_draws = Inr (m, g') \<and>
       (\<exists>b. bias m = Some b \<and> shape b = [2])) \<and>
   (\<exists>self' g3. reset_parameters \<lparr>out_features = 2, weight = Tensor [2, 1] [0, 0], bias = None\<rparr>
        middle_draws = Inr (self', g3) \<and> bias self' = None)"
proof -
  let ?self = "\<lparr>out_features = 2, weight = Tensor [2, 1] [0, 0 :: real], bias = None\<rparr>"
  have h: "(0 :: int) < 1" "(0 :: int) \<le> 2" by simp_all
  note t = bias_absent_or_shaped [OF h(1) h(2) h(2), where self = ?self and g = middle_draws]
  from t [of False] have a: "\<exists>m g'. Linear_init 1 2 False middle_draws = Inr (m, g') \<and> bias m = None"
    and b: "\<exists>m g'. Bilinear_init 1 2 2 False middle_draws = Inr (m, g') \<and> bias m = None"
    by auto
  from t [of True] have c: "\<exists>m g'. Linear_init 1 2 True middle_draws = Inr (m, g') \<and>
       (\<exists>b. bias m = Some b \<and> shape b = [2])"
    by auto
  obtain self' g3 where r: "reset_parameters ?self middle_draws = Inr (self', g3)"
    by (simp add: reset_parameters_def size_dim_def dim_def uniform_def)
  with t [of False] have "bias self' = None"
    by auto
  with r a b c h show ?thesis by blast
qed

end
